theory Spec2Isabelle
  imports Complex_Main "HOL-Library.Log_Nat"
begin

section \<open>Roles, profiles and the permission table\<close>

text \<open>
  The application shell keeps three role labels in the constant \<open>ROLES\<close> and a static
  object literal \<open>PERMISSIONS\<close> that maps each action name to the array of role labels
  allowed to perform it. The object literal is embedded as an association list in the
  order of the source.
\<close>

definition ROLES :: "string list" where
  "ROLES = [''Admin'', ''Enrollment Manager'', ''Partner'']"

definition PERMISSIONS :: "(string \<times> string list) list" where
  "PERMISSIONS =
    [(''CREATE_ENROLLEE'', [''Admin'', ''Enrollment Manager'']),
     (''EDIT_ENROLLEE'', [''Admin'', ''Enrollment Manager'']),
     (''DELETE_ENROLLEE'', [''Admin'']),
     (''VIEW_ENROLLEE'', [''Admin'', ''Enrollment Manager'']),
     (''CREATE_RESOURCE'', [''Admin'']),
     (''EDIT_RESOURCE'', [''Admin'']),
     (''DELETE_RESOURCE'', [''Admin'']),
     (''VIEW_RESOURCE'', [''Admin'', ''Enrollment Manager'', ''Partner'']),
     (''CREATE_REFERRAL'', [''Admin'', ''Enrollment Manager'']),
     (''EDIT_REFERRAL'', [''Admin'', ''Enrollment Manager'']),
     (''CANCEL_REFERRAL'', [''Admin'', ''Enrollment Manager'']),
     (''VIEW_REFERRAL'', [''Admin'', ''Enrollment Manager'', ''Partner'']),
     (''RESPOND_REFERRAL'', [''Admin'', ''Partner'']),
     (''CREATE_CARE_NOTE'', [''Admin'', ''Enrollment Manager'']),
     (''EDIT_CARE_NOTE'', [''Admin'', ''Enrollment Manager'']),
     (''DELETE_CARE_NOTE'', [''Admin'']),
     (''LOAD_SAMPLE_DATA'', [''Admin'']),
     (''MANAGE_USERS'', [''Admin'']),
     (''ADMIN_PORTAL'', [''Admin''])]"

text \<open>
  \<open>PERMISSIONS\<close> is an ordinary object literal, so a bracket lookup
  \<open>PERMISSIONS[permission]\<close> that finds no own property continues along the prototype
  chain to \<open>Object.prototype\<close>. The names below are the properties every ordinary object
  inherits from there; each of them holds a function (or, for \<open>__proto__\<close>, the prototype
  object itself), hence a truthy value that is not an array.
\<close>

definition Object_prototype :: "string list" where
  "Object_prototype =
    [''constructor'', ''__defineGetter__'', ''__defineSetter__'', ''hasOwnProperty'',
     ''__lookupGetter__'', ''__lookupSetter__'', ''isPrototypeOf'',
     ''propertyIsEnumerable'', ''toString'', ''valueOf'', ''__proto__'',
     ''toLocaleString'']"

datatype property = RoleArray "string list" | InheritedMember

definition get_property :: "(string \<times> string list) list \<Rightarrow> string \<Rightarrow> property option" where
  "get_property obj key =
     (case map_of obj key of
        Some roles \<Rightarrow> Some (RoleArray roles)
      | None \<Rightarrow> if key \<in> set Object_prototype then Some InheritedMember else None)"

datatype js_error = TypeError

text \<open>
  \<open>hasPermission\<close> is the closure returned by the hook \<open>usePermissions\<close>; the hook's state
  \<open>userRole\<close> (\<open>null\<close> until the profile snapshot arrives) is its first argument here.
  \<open>!userRole\<close> holds for \<open>null\<close> and for the empty string. Calling \<open>includes\<close> on a value
  that has no such method raises a \<open>TypeError\<close>.
\<close>

definition hasPermission :: "string option \<Rightarrow> string \<Rightarrow> js_error + bool" where
  "hasPermission userRole permission =
     (case userRole of
        None \<Rightarrow> Inr False
      | Some r \<Rightarrow>
          if r = [] then Inr False
          else
            (let allowedRoles =
                   (case get_property PERMISSIONS permission of
                      None \<Rightarrow> RoleArray []
                    | Some v \<Rightarrow> v)
             in case allowedRoles of
                  RoleArray roles \<Rightarrow> Inr (r \<in> set roles)
                | InheritedMember \<Rightarrow> Inl TypeError))"



text \<open>
  The profile document of a principal; \<open>role\<close> is \<open>None\<close> when the field is missing. The
  snapshot listener of \<open>usePermissions\<close> resolves the role: the stored role when the
  document exists and the field is truthy, and the label \<open>CPC\<close> otherwise.
\<close>

record profile =
  role :: "string option"
  assignedEnrollees :: "string list option"

definition resolveRole :: "profile option \<Rightarrow> string" where
  "resolveRole profileSnap =
     (case profileSnap of
        Some d \<Rightarrow> (case role d of
                     Some r \<Rightarrow> if r = [] then ''CPC'' else r
                   | None \<Rightarrow> ''CPC'')
      | None \<Rightarrow> ''CPC'')"

section \<open>Eligibility filter of the resource directory\<close>

record eligibilityCriteria =
  elig_zCodes :: "string list option"
  elig_income :: "string option"

record resource =
  resource_name :: string
  eligibilityCriteria :: "eligibilityCriteria option"

datatype tier_value = TierNumber int | TierString string

type_synonym wellnessScores = "string \<Rightarrow> int option"

record riskProfile =
  tier :: "tier_value option"
  wellnessScores :: "wellnessScores option"
  zCodes :: "string list option"

record careTeamMember =
  member_name :: string
  member_role :: "string option"

record enrollee =
  riskProfile :: "riskProfile option"
  careTeam :: "careTeamMember list option"

text \<open>
  \<open>isEligible\<close> is the arrow function that \<open>ResourcesPage\<close> passes to \<open>resources.filter\<close>
  when an enrollee is selected; \<open>filteredResources\<close> is the list the page renders.
\<close>

definition isEligible :: "enrollee \<Rightarrow> resource \<Rightarrow> bool" where
  "isEligible selectedEnrollee res =
     (let criteria_zCodes =
            (case eligibilityCriteria res of None \<Rightarrow> None | Some c \<Rightarrow> elig_zCodes c);
          enrolleeZCodes =
            (case riskProfile selectedEnrollee of
               None \<Rightarrow> []
             | Some rp \<Rightarrow> (case zCodes rp of None \<Rightarrow> [] | Some zs \<Rightarrow> zs))
      in case criteria_zCodes of
           None \<Rightarrow> True
         | Some cz \<Rightarrow>
             if length cz > 0
             then (let hasMatchingZCode = list_ex (\<lambda>code. code \<in> set enrolleeZCodes) cz
                   in if \<not> hasMatchingZCode then False else True)
             else True)"

definition filteredResources :: "enrollee option \<Rightarrow> resource list \<Rightarrow> resource list" where
  "filteredResources selectedEnrollee resources =
     (case selectedEnrollee of
        Some e \<Rightarrow> filter (isEligible e) resources
      | None \<Rightarrow> resources)"

text \<open>The two code lists the filter reads, with an absent list read as the empty one.\<close>

definition resource_codes :: "resource \<Rightarrow> string list" where
  "resource_codes res =
     (case eligibilityCriteria res of
        None \<Rightarrow> []
      | Some c \<Rightarrow> (case elig_zCodes c of None \<Rightarrow> [] | Some cz \<Rightarrow> cz))"

definition subject_codes :: "enrollee \<Rightarrow> string list" where
  "subject_codes e =
     (case riskProfile e of
        None \<Rightarrow> []
      | Some rp \<Rightarrow> (case zCodes rp of None \<Rightarrow> [] | Some zs \<Rightarrow> zs))"

definition set_income :: "string option \<Rightarrow> resource \<Rightarrow> resource" where
  "set_income v res =
     res\<lparr>eligibilityCriteria :=
           map_option (\<lambda>c. c\<lparr>elig_income := v\<rparr>) (eligibilityCriteria res)\<rparr>"

section \<open>Double precision\<close>

text \<open>
  A JavaScript number is an IEEE 754 binary64 value. \<open>binary64 x\<close> is the double nearest
  to the rational \<open>x\<close>, a tie going to the even significand: for \<open>x\<close> in the binade
  \<open>2 ^ e \<le> \<bar>x\<bar> < 2 ^ (e + 1)\<close> the doubles are the multiples of \<open>2 ^ (e - 52)\<close>. The
  exponent range of the format (overflow to an infinity, subnormal numbers) is not
  modelled.
\<close>

definition binade :: "rat \<Rightarrow> int" where
  "binade x =
     (case quotient_of \<bar>x\<bar> of
        (p, q) \<Rightarrow>
          (let d = bitlen p - bitlen q
           in if 2 powi d \<le> \<bar>x\<bar> then d else d - 1))"

definition round_ties_even :: "rat \<Rightarrow> int" where
  "round_ties_even y =
     (let f = \<lfloor>y\<rfloor>
      in if y - of_int f < 1 / 2 then f
         else if 1 / 2 < y - of_int f then f + 1
         else if even f then f else f + 1)"

definition binary64 :: "rat \<Rightarrow> rat" where
  "binary64 x =
     (if x = 0 then 0
      else (let u = 2 powi (binade x - 52)
            in of_int (round_ties_even (x / u)) * u))"

text \<open>The rationals that are doubles: a significand of at most 53 bits times a power of two.\<close>

definition representable :: "rat \<Rightarrow> bool" where
  "representable r = (\<exists>m e. \<bar>m\<bar> \<le> 2 ^ 53 \<and> r = of_int m * 2 powi e)"

text \<open>
  \<open>Math.round((k / n) * 100)\<close> on two counts, as the service computes it: the quotient
  and the product are each rounded to a double, and \<open>Math.round\<close> rounds the double.
\<close>

definition percentage :: "nat \<Rightarrow> nat \<Rightarrow> int" where
  "percentage k n =
     (if n = 0 then 0
      else \<lfloor>binary64 (binary64 (of_nat k / of_nat n) * 100) + 1 / 2\<rfloor>)"

section \<open>JavaScript numbers\<close>

text \<open>
  The analytics service computes with JavaScript numbers. A number is embedded as a
  finite value or one of the three special values that a division can produce; the
  sign of zero is not distinguished (every divisor in the service is a length). The
  scores of the data model are integers and the counts are lengths.

  \<open>js_div\<close> keeps a quotient exact. It embeds the divisions whose result the service
  returns as it is, compares with an integer or passes to \<open>Math.round\<close> as a mean of
  integer scores: there the double nearest to the quotient gives the same answers.
  \<open>js_div_double\<close> and \<open>js_mul_double\<close> round their result to a double. They embed
  the operations whose double is rounded once more, by \<open>Math.round\<close> in a percentage
  and by \<open>toFixed\<close>, where the last bit of the double decides a tie.
\<close>

datatype number = Fin rat | PosInfinity | NegInfinity | NaN

fun js_neg :: "number \<Rightarrow> number" where
  "js_neg (Fin a) = Fin (- a)"
| "js_neg PosInfinity = NegInfinity"
| "js_neg NegInfinity = PosInfinity"
| "js_neg NaN = NaN"

fun js_div :: "number \<Rightarrow> number \<Rightarrow> number" where
  "js_div (Fin a) (Fin b) =
     (if b = 0 then (if a = 0 then NaN else if a > 0 then PosInfinity else NegInfinity)
      else Fin (a / b))"
| "js_div (Fin a) PosInfinity = Fin 0"
| "js_div (Fin a) NegInfinity = Fin 0"
| "js_div PosInfinity (Fin b) = (if b < 0 then NegInfinity else PosInfinity)"
| "js_div NegInfinity (Fin b) = (if b < 0 then PosInfinity else NegInfinity)"
| "js_div _ _ = NaN"

fun js_div_double :: "number \<Rightarrow> number \<Rightarrow> number" where
  "js_div_double (Fin a) (Fin b) =
     (if b = 0 then (if a = 0 then NaN else if a > 0 then PosInfinity else NegInfinity)
      else Fin (binary64 (a / b)))"
| "js_div_double x y = js_div x y"

fun js_mul_double :: "number \<Rightarrow> number \<Rightarrow> number" where
  "js_mul_double (Fin a) (Fin b) = Fin (binary64 (a * b))"
| "js_mul_double NaN _ = NaN"
| "js_mul_double _ NaN = NaN"
| "js_mul_double (Fin a) y = (if a = 0 then NaN else if a > 0 then y else js_neg y)"
| "js_mul_double x (Fin b) = (if b = 0 then NaN else if b > 0 then x else js_neg x)"
| "js_mul_double PosInfinity y = y"
| "js_mul_double NegInfinity y = js_neg y"

fun js_add :: "number \<Rightarrow> number \<Rightarrow> number" where
  "js_add (Fin a) (Fin b) = Fin (a + b)"
| "js_add NaN _ = NaN"
| "js_add _ NaN = NaN"
| "js_add PosInfinity NegInfinity = NaN"
| "js_add NegInfinity PosInfinity = NaN"
| "js_add (Fin a) y = y"
| "js_add x _ = x"

definition js_sub :: "number \<Rightarrow> number \<Rightarrow> number" where
  "js_sub x y = js_add x (js_neg y)"

fun js_lt :: "number \<Rightarrow> number \<Rightarrow> bool" where
  "js_lt (Fin a) (Fin b) = (a < b)"
| "js_lt NaN _ = False"
| "js_lt _ NaN = False"
| "js_lt _ NegInfinity = False"
| "js_lt NegInfinity _ = True"
| "js_lt PosInfinity _ = False"
| "js_lt _ PosInfinity = True"

definition js_gt :: "number \<Rightarrow> number \<Rightarrow> bool" where
  "js_gt x y = js_lt y x"

fun js_le :: "number \<Rightarrow> number \<Rightarrow> bool" where
  "js_le NaN _ = False"
| "js_le _ NaN = False"
| "js_le x y = (\<not> js_lt y x)"

fun Math_abs :: "number \<Rightarrow> number" where
  "Math_abs (Fin a) = Fin \<bar>a\<bar>"
| "Math_abs PosInfinity = PosInfinity"
| "Math_abs NegInfinity = PosInfinity"
| "Math_abs NaN = NaN"

text \<open>\<open>Math.round\<close> rounds to the nearest integer, a tie towards positive infinity.\<close>

fun Math_round :: "number \<Rightarrow> number" where
  "Math_round (Fin a) = Fin (of_int \<lfloor>a + 1 / 2\<rfloor>)"
| "Math_round x = x"

text \<open>
  \<open>toFixed(1)\<close> yields the decimal string with one digit after the point that is
  nearest to the exact value of its double (a tie away from zero), or the name of a
  special value. The string is represented by the number it denotes.
\<close>

fun toFixed1 :: "number \<Rightarrow> number" where
  "toFixed1 (Fin a) =
     (if a < 0 then Fin (- (of_int \<lfloor>(- a) * 10 + 1 / 2\<rfloor> / 10))
      else Fin (of_int \<lfloor>a * 10 + 1 / 2\<rfloor> / 10))"
| "toFixed1 x = x"

fun is_finite :: "number \<Rightarrow> bool" where
  "is_finite (Fin a) = True"
| "is_finite x = False"

section \<open>Wellness scores of one enrollee\<close>

definition dimensions :: "string list" where
  "dimensions = [''physical'', ''emotional'', ''social'', ''intellectual'',
                 ''occupational'', ''environmental'', ''financial'', ''spiritual'']"

text \<open>
  \<open>calculateWellnessScore\<close> of the application shell: a missing (falsy) dimension counts
  as 0, the sum is divided by the eight entries and rounded.
\<close>

definition calculateWellnessScore :: "enrollee \<Rightarrow> number" where
  "calculateWellnessScore e =
     (case riskProfile e of
        None \<Rightarrow> Fin 0
      | Some rp \<Rightarrow>
         (case wellnessScores rp of
            None \<Rightarrow> Fin 0
          | Some scores \<Rightarrow>
              (let or0 = (\<lambda>v. case v of None \<Rightarrow> 0 | Some n \<Rightarrow> n);
                   dims = [or0 (scores ''physical''), or0 (scores ''emotional''),
                           or0 (scores ''social''), or0 (scores ''intellectual''),
                           or0 (scores ''occupational''), or0 (scores ''environmental''),
                           or0 (scores ''financial''), or0 (scores ''spiritual'')];
                   sum = foldl (\<lambda>acc score. acc + score) 0 dims
               in Math_round (js_div (Fin (of_int sum)) (Fin (of_nat (length dims)))))))"

text \<open>
  \<open>calculateEnrolleeWellness\<close> of the analytics service: the dimensions that hold a
  number are averaged, the others are dropped; the quotient is not rounded.
\<close>

definition calculateEnrolleeWellness :: "enrollee \<Rightarrow> number" where
  "calculateEnrolleeWellness e =
     (case riskProfile e of
        None \<Rightarrow> Fin 0
      | Some rp \<Rightarrow>
         (case wellnessScores rp of
            None \<Rightarrow> Fin 0
          | Some scores \<Rightarrow>
              (let values = List.map_filter (\<lambda>d. scores d) dimensions
               in if length values > 0
                  then js_div (Fin (of_int (foldl (\<lambda>sum score. sum + score) 0 values)))
                              (Fin (of_nat (length values)))
                  else Fin 0)))"

section \<open>Aggregate analytics\<close>

text \<open>The body of the outer \<open>forEach\<close> of \<open>calculateAverageWellness\<close>, on the two counters.\<close>

definition add_scores :: "enrollee \<Rightarrow> int \<times> nat \<Rightarrow> int \<times> nat" where
  "add_scores e acc =
     (case riskProfile e of
        None \<Rightarrow> acc
      | Some rp \<Rightarrow>
         (case wellnessScores rp of
            None \<Rightarrow> acc
          | Some scores \<Rightarrow>
              fold (\<lambda>d (totalScore, scoreCount).
                      case scores d of
                        Some score \<Rightarrow> (totalScore + score, scoreCount + 1)
                      | None \<Rightarrow> (totalScore, scoreCount))
                   dimensions acc))"

definition calculateAverageWellness :: "enrollee list \<Rightarrow> number" where
  "calculateAverageWellness enrollees =
     (if length enrollees = 0 then Fin 0
      else (case fold add_scores enrollees (0, 0) of
              (totalScore, scoreCount) \<Rightarrow>
                if scoreCount > 0
                then Math_round (js_div (Fin (of_int totalScore)) (Fin (of_nat scoreCount)))
                else Fin 0))"

text \<open>\<open>e.riskProfile?.wellnessScores?.[dim]\<close>, \<open>None\<close> when it is not a number.\<close>

definition wellness_lookup :: "enrollee \<Rightarrow> string \<Rightarrow> int option" where
  "wellness_lookup e d =
     (case riskProfile e of
        None \<Rightarrow> None
      | Some rp \<Rightarrow> (case wellnessScores rp of None \<Rightarrow> None | Some scores \<Rightarrow> scores d))"

definition calculateWellnessDimensions :: "enrollee list \<Rightarrow> (string \<times> number) list" where
  "calculateWellnessDimensions enrollees =
     map (\<lambda>d.
            (d,
             (let scores = List.map_filter (\<lambda>e. wellness_lookup e d) enrollees
              in if length scores > 0
                 then js_div (Fin (of_int (foldl (\<lambda>sum score. sum + score) 0 scores)))
                             (Fin (of_nat (length scores)))
                 else Fin 0)))
         dimensions"

text \<open>\<open>e.riskProfile?.tier === k\<close> for a number \<open>k\<close>.\<close>

definition tier_is :: "int \<Rightarrow> enrollee \<Rightarrow> bool" where
  "tier_is k e =
     (case riskProfile e of None \<Rightarrow> False | Some rp \<Rightarrow> tier rp = Some (TierNumber k))"

record riskDistribution =
  tier1 :: nat
  tier2 :: nat
  tier3 :: nat
  tier1Percent :: number
  tier2Percent :: number
  tier3Percent :: number

definition calculateRiskDistribution :: "enrollee list \<Rightarrow> riskDistribution" where
  "calculateRiskDistribution enrollees =
     (let total = length enrollees
      in if total = 0
         then \<lparr>tier1 = 0, tier2 = 0, tier3 = 0,
               tier1Percent = Fin 0, tier2Percent = Fin 0, tier3Percent = Fin 0\<rparr>
         else
           (let t1 = length (filter (tier_is 1) enrollees);
                t2 = length (filter (tier_is 2) enrollees);
                t3 = length (filter (tier_is 3) enrollees)
            in \<lparr>tier1 = t1, tier2 = t2, tier3 = t3,
                 tier1Percent =
                   Math_round (js_mul_double (js_div_double (Fin (of_nat t1)) (Fin (of_nat total))) (Fin 100)),
                 tier2Percent =
                   Math_round (js_mul_double (js_div_double (Fin (of_nat t2)) (Fin (of_nat total))) (Fin 100)),
                 tier3Percent =
                   Math_round (js_mul_double (js_div_double (Fin (of_nat t3)) (Fin (of_nat total))) (Fin 100))\<rparr>))"

text \<open>
  Of the objects returned by \<open>analyzeZCodes\<close>, \<open>analyzeCareTeams\<close> and \<open>analyzeReferrals\<close>
  the counters and the quotients are embedded; their frequency tables (\<open>topZCodes\<close>,
  \<open>roleCounts\<close>, \<open>topResources\<close>) involve no division and are left out.
\<close>

record zCodeAnalysis =
  totalZCodes :: nat
  enrolleesWithZCodes :: nat
  avgZCodesPerEnrollee :: number

definition analyzeZCodes :: "enrollee list \<Rightarrow> zCodeAnalysis" where
  "analyzeZCodes enrollees =
     (case fold (\<lambda>e (totalZ, withZ).
                   let zs = subject_codes e
                   in if length zs > 0 then (totalZ + length zs, withZ + 1)
                      else (totalZ, withZ))
                enrollees (0, 0) of
        (totalZ, withZ) \<Rightarrow>
          \<lparr>totalZCodes = totalZ,
           enrolleesWithZCodes = withZ,
           avgZCodesPerEnrollee =
             (if length enrollees > 0
              then toFixed1 (js_div_double (Fin (of_nat totalZ)) (Fin (of_nat (length enrollees))))
              else Fin 0)\<rparr>)"

record careTeamAnalysis =
  totalTeamMembers :: nat
  enrolleesWithTeams :: nat
  avgTeamSize :: number

definition analyzeCareTeams :: "enrollee list \<Rightarrow> careTeamAnalysis" where
  "analyzeCareTeams enrollees =
     (case fold (\<lambda>e (totalT, withT).
                   let team = (case careTeam e of None \<Rightarrow> [] | Some t \<Rightarrow> t)
                   in if length team > 0 then (totalT + length team, withT + 1)
                      else (totalT, withT))
                enrollees (0, 0) of
        (totalT, withT) \<Rightarrow>
          \<lparr>totalTeamMembers = totalT,
           enrolleesWithTeams = withT,
           avgTeamSize =
             (if length enrollees > 0
              then toFixed1 (js_div_double (Fin (of_nat totalT)) (Fin (of_nat (length enrollees))))
              else Fin 0)\<rparr>)"

text \<open>
  A referral document: its status, the name of the resource and the uid of the user who
  created it.
\<close>

record referral =
  status :: string
  resourceName :: "string option"
  referringUserId :: string

record referralAnalysis =
  statusCounts :: "(string \<times> nat) list"
  acceptanceRate :: number

definition analyzeReferrals :: "referral list \<Rightarrow> referralAnalysis" where
  "analyzeReferrals referrals =
     (let counts =
            [(''Pending'', length (filter (\<lambda>r. status r = ''Pending'') referrals)),
             (''Accepted'', length (filter (\<lambda>r. status r = ''Accepted'') referrals)),
             (''Rejected'', length (filter (\<lambda>r. status r = ''Rejected'') referrals))];
          accepted = (case map_of counts ''Accepted'' of Some n \<Rightarrow> n | None \<Rightarrow> 0)
      in \<lparr>statusCounts = counts,
          acceptanceRate =
            (if length referrals > 0
             then Math_round (js_mul_double (js_div_double (Fin (of_nat accepted))
                                             (Fin (of_nat (length referrals))))
                                     (Fin 100))
             else Fin 0)\<rparr>)"

record trends =
  improving :: nat
  stable :: nat
  declining :: nat
  improvingPercent :: number
  stablePercent :: number
  decliningPercent :: number

definition calculateTrends :: "enrollee list \<Rightarrow> trends" where
  "calculateTrends enrollees =
     (let avgWellness = calculateAverageWellness enrollees;
          imp = length (filter (\<lambda>e. let wellness = calculateEnrolleeWellness e
                                     in js_gt wellness (js_add avgWellness (Fin 10)))
                               enrollees);
          stb = length (filter (\<lambda>e. let wellness = calculateEnrolleeWellness e
                                     in js_le (Math_abs (js_sub wellness avgWellness)) (Fin 10))
                               enrollees);
          dcl = length (filter (\<lambda>e. let wellness = calculateEnrolleeWellness e
                                     in js_lt wellness (js_sub avgWellness (Fin 10)))
                               enrollees)
      in \<lparr>improving = imp, stable = stb, declining = dcl,
          improvingPercent =
            (if length enrollees > 0
             then Math_round (js_mul_double (js_div_double (Fin (of_nat imp)) (Fin (of_nat (length enrollees))))
                                     (Fin 100))
             else Fin 0),
          stablePercent =
            (if length enrollees > 0
             then Math_round (js_mul_double (js_div_double (Fin (of_nat stb)) (Fin (of_nat (length enrollees))))
                                     (Fin 100))
             else Fin 0),
          decliningPercent =
            (if length enrollees > 0
             then Math_round (js_mul_double (js_div_double (Fin (of_nat dcl)) (Fin (of_nat (length enrollees))))
                                     (Fin 100))
             else Fin 0)\<rparr>)"

section \<open>Reference quantities\<close>

text \<open>
  The mathematical quantities the service is compared with: the scores an enrollee has,
  their mean, the rounded mean of all scores of a population, and the per-subject
  wellness as the specification words it (eight dimensions, a missing one counted as 0,
  rounded to the nearest integer).
\<close>

definition present_scores :: "enrollee \<Rightarrow> int list" where
  "present_scores e = List.map_filter (wellness_lookup e) dimensions"

definition mean_present :: "enrollee \<Rightarrow> rat" where
  "mean_present e =
     (if present_scores e = [] then 0
      else of_int (sum_list (present_scores e)) / of_nat (length (present_scores e)))"

definition all_scores :: "enrollee list \<Rightarrow> int list" where
  "all_scores es = concat (map present_scores es)"

definition population_average :: "enrollee list \<Rightarrow> int" where
  "population_average es =
     (if all_scores es = [] then 0
      else \<lfloor>of_int (sum_list (all_scores es)) / (of_nat (length (all_scores es)) :: rat) + 1 / 2\<rfloor>)"

definition score_or_zero :: "enrollee \<Rightarrow> string \<Rightarrow> int" where
  "score_or_zero e d = (case wellness_lookup e d of None \<Rightarrow> 0 | Some v \<Rightarrow> v)"

definition perSubjectWellness_spec :: "enrollee \<Rightarrow> number" where
  "perSubjectWellness_spec e =
     Fin (of_int \<lfloor>of_int (sum_list (map (score_or_zero e) dimensions)) / (8 :: rat) + 1 / 2\<rfloor>)"

datatype trend = Improving | Stable | Declining

definition trend_of :: "rat \<Rightarrow> rat \<Rightarrow> trend" where
  "trend_of wellness average =
     (if wellness > average + 10 then Improving
      else if wellness < average - 10 then Declining
      else Stable)"

text \<open>Sample data: an enrollee with the given values for the given dimensions.\<close>

definition enrollee_with :: "(string \<times> int) list \<Rightarrow> tier_value option \<Rightarrow> enrollee" where
  "enrollee_with scores t =
     \<lparr>riskProfile = Some \<lparr>tier = t, wellnessScores = Some (map_of scores), zCodes = None\<rparr>,
      careTeam = None\<rparr>"

definition uniform_enrollee :: "int \<Rightarrow> enrollee" where
  "uniform_enrollee v = enrollee_with (map (\<lambda>d. (d, v)) dimensions) (Some (TierNumber 1))"

text \<open>
  \<open>nearest_percent p k n\<close>: the integer \<open>p\<close> is a nearest integer to the exact percentage
  of \<open>k\<close> in \<open>n\<close> (either neighbour when the exact percentage is a tie).
\<close>

definition nearest_percent :: "int \<Rightarrow> nat \<Rightarrow> nat \<Rightarrow> bool" where
  "nearest_percent p k n = (\<bar>of_int p - (of_nat k / of_nat n) * (100 :: rat)\<bar> \<le> 1 / 2)"

definition seven_of_eight :: enrollee where
  "seven_of_eight = enrollee_with (map (\<lambda>d. (d, 80)) (butlast dimensions)) (Some (TierNumber 1))"

definition physical_only :: enrollee where
  "physical_only = enrollee_with [(''physical'', 80)] (Some (TierNumber 1))"

definition unassessed_enrollee :: enrollee where
  "unassessed_enrollee = enrollee_with [] None"

definition sample_population :: "enrollee list" where
  "sample_population =
     [uniform_enrollee 65, uniform_enrollee 50, uniform_enrollee 30, uniform_enrollee 55]"

definition forty_subjects :: "enrollee list" where
  "forty_subjects = replicate 23 (uniform_enrollee 90) @ replicate 17 (uniform_enrollee 33)"

definition has_tier :: "enrollee \<Rightarrow> bool" where
  "has_tier e = (tier_is 1 e \<or> tier_is 2 e \<or> tier_is 3 e)"

definition string_tier_enrollee :: enrollee where
  "string_tier_enrollee = enrollee_with [] (Some (TierString ''unassessed''))"

definition forty_population :: "enrollee list" where
  "forty_population =
     replicate 23 (enrollee_with [] (Some (TierNumber 1)))
       @ replicate 17 (enrollee_with [] (Some (TierNumber 2)))"

definition untiered_population :: "enrollee list" where
  "untiered_population = [unassessed_enrollee, string_tier_enrollee]"

definition referral_with :: "string \<Rightarrow> referral" where
  "referral_with s = \<lparr>status = s, resourceName = None, referringUserId = ''u1''\<rparr>"

definition forty_referrals :: "referral list" where
  "forty_referrals =
     replicate 23 (referral_with ''Accepted'') @ replicate 17 (referral_with ''Cancelled'')"

definition counted_status :: "referral \<Rightarrow> bool" where
  "counted_status r =
     (status r = ''Pending'' \<or> status r = ''Accepted'' \<or> status r = ''Rejected'')"

section \<open>Referral workflow\<close>

text \<open>
  The referral documents live in one collection of the document store, keyed by document
  id. Two pages write the \<open>status\<close> field. \<open>ReferralsPage\<close> (the referring user's session)
  holds the uid of the signed-in user (\<open>user?.uid\<close>, \<open>None\<close> when there is none) and the
  id of the referral whose cancel confirmation is open; \<open>ReferralInboxPage\<close> (the
  responder's session) holds the referral and action picked for a response and whether
  the response dialog is open. Both pages render from a live subscription, so the
  referral list a page shows is read from the collection itself: \<open>ReferralsPage\<close>
  subscribes to the query \<open>where('referringUserId', '==', user.uid)\<close> and has no
  subscription without a uid, \<open>ReferralInboxPage\<close> subscribes to the whole collection.
  The database handle \<open>db\<close> is taken to be present.
\<close>

record referralsPage_state =
  page_uid :: "string option"
  page_userRole :: "string option"
  cancelingReferralId :: "string option"

record referralInbox_state =
  inbox_userRole :: "string option"
  selectedReferral :: "(string \<times> string) option"
  showResponseDialog :: bool

record app_state =
  referrals_collection :: "string \<Rightarrow> referral option"
  referralsPage :: referralsPage_state
  referralInbox :: referralInbox_state

text \<open>The value of \<open>hasPermission(permission)\<close> where it is used as a condition.\<close>

definition allowed :: "string option \<Rightarrow> string \<Rightarrow> bool" where
  "allowed userRole permission = (hasPermission userRole permission = Inr True)"







definition respond_buttons_rendered :: "app_state \<Rightarrow> string \<Rightarrow> bool" where
  "respond_buttons_rendered s referralId =
     (case referrals_collection s referralId of
        None \<Rightarrow> False
      | Some r \<Rightarrow>
          status r = ''Pending'' \<and> allowed (inbox_userRole (referralInbox s)) ''RESPOND_REFERRAL'')"




definition status_of :: "app_state \<Rightarrow> string \<Rightarrow> string option" where
  "status_of s referralId = map_option status (referrals_collection s referralId)"



section \<open>Properties of the permission check\<close>


lemma cpc_in_no_entry: "\<forall>(a, rs) \<in> set PERMISSIONS. ''CPC'' \<notin> set rs"
  by (simp add: PERMISSIONS_def)


lemma hasPermission_true_iff:
  "hasPermission (Some r) a = Inr True \<longleftrightarrow>
     (\<exists>rs. map_of PERMISSIONS a = Some rs \<and> r \<in> set rs)"
  by (auto simp: hasPermission_def get_property_def PERMISSIONS_def Let_def
      split: option.splits property.splits if_splits)

lemma hasPermission_result:
  "hasPermission userRole a = Inl TypeError \<or> hasPermission userRole a = Inr False \<or>
   hasPermission userRole a = Inr True"
  by (auto simp: hasPermission_def Let_def split: option.splits property.splits)

lemma hasPermission_defined_action:
  assumes "map_of PERMISSIONS a = Some rs"
  shows "hasPermission (Some r) a = Inr (r \<in> set rs)"
proof (cases "r = []")
  case True
  have "\<forall>(b, qs) \<in> set PERMISSIONS. [] \<notin> set qs"
    by (simp add: PERMISSIONS_def)
  with map_of_SomeD [OF assms] have "[] \<notin> set rs" by blast
  with True show ?thesis by (simp add: hasPermission_def)
next
  case False
  with assms show ?thesis by (simp add: hasPermission_def get_property_def)
qed






text \<open>
  The table is an ordinary object, so a name that \<open>Object.prototype\<close> defines is found by
  the lookup although it is no key of the table: for a resolved role the fallback
  \<open>|| []\<close> is skipped and \<open>includes\<close> is not a function. No call site passes such a name
  (\<open>requested_permissions_defined\<close>), and the check grants nothing for it.
\<close>

lemma hasPermission_inherited_name:
  "map_of PERMISSIONS ''constructor'' = None \<and>
   hasPermission (Some ''Admin'') ''constructor'' = Inl TypeError"
  by (simp add: hasPermission_def get_property_def PERMISSIONS_def Object_prototype_def)



text \<open>
  Claim C8. A principal without a profile document, or whose profile has a missing or
  empty \<open>role\<close> field, is resolved to the label \<open>CPC\<close>. That label is none of the three
  roles of \<open>ROLES\<close> and occurs in no entry of \<open>PERMISSIONS\<close>; the permission check
  therefore answers \<open>false\<close> for every action of the table, and it answers \<open>true\<close> for no
  action name at all.
\<close>

theorem C8_default_role_denied_everything:
  assumes "case profileSnap of None \<Rightarrow> True | Some d \<Rightarrow> role d = None \<or> role d = Some []"
  shows "resolveRole profileSnap = ''CPC'' \<and>
         ''CPC'' \<notin> set ROLES \<and>
         (\<forall>(a, rs) \<in> set PERMISSIONS. ''CPC'' \<notin> set rs) \<and>
         (\<forall>a \<in> fst ` set PERMISSIONS.
             hasPermission (Some (resolveRole profileSnap)) a = Inr False) \<and>
         (\<forall>a. hasPermission (Some (resolveRole profileSnap)) a \<noteq> Inr True)"
proof -
  have r: "resolveRole profileSnap = ''CPC''"
    using assms by (auto simp: resolveRole_def split: option.splits)
  have "hasPermission (Some ''CPC'') a = Inr False" if "a \<in> fst ` set PERMISSIONS" for a
  proof -
    from that obtain rs where m: "map_of PERMISSIONS a = Some rs"
      by (metis domD dom_map_of_conv_image_fst)
    from map_of_SomeD [OF m] cpc_in_no_entry have "''CPC'' \<notin> set rs" by blast
    with hasPermission_defined_action [OF m] show ?thesis by simp
  qed
  moreover have "hasPermission (Some ''CPC'') a \<noteq> Inr True" for a
  proof
    assume "hasPermission (Some ''CPC'') a = Inr True"
    then obtain rs where m: "map_of PERMISSIONS a = Some rs" and "''CPC'' \<in> set rs"
      unfolding hasPermission_true_iff by blast
    with map_of_SomeD [OF m] cpc_in_no_entry show False by blast
  qed
  moreover have "''CPC'' \<notin> set ROLES" by (simp add: ROLES_def)
  ultimately show ?thesis using r cpc_in_no_entry by simp
qed

theorem C8_default_role_witness:
  "resolveRole None = ''CPC'' \<and>
   resolveRole (Some \<lparr>role = Some [], assignedEnrollees = None\<rparr>) = ''CPC'' \<and>
   hasPermission (Some (resolveRole None)) ''VIEW_RESOURCE'' = Inr False \<and>
   hasPermission (Some (resolveRole (Some \<lparr>role = Some [], assignedEnrollees = None\<rparr>)))
     ''VIEW_RESOURCE'' = Inr False"
proof -
  have v: "''VIEW_RESOURCE'' \<in> fst ` set PERMISSIONS"
    by (simp add: PERMISSIONS_def)
  have h1: "case (None :: profile option) of None \<Rightarrow> True
            | Some d \<Rightarrow> role d = None \<or> role d = Some []"
    by simp
  have h2: "case Some \<lparr>role = Some [], assignedEnrollees = None\<rparr> of None \<Rightarrow> True
            | Some d \<Rightarrow> role d = None \<or> role d = Some []"
    by simp
  show ?thesis
    using C8_default_role_denied_everything [OF h1] C8_default_role_denied_everything [OF h2] v
    by blast
qed

section \<open>Properties of the eligibility filter\<close>

lemma isEligible_iff:
  "isEligible s res =
     (resource_codes res = [] \<or> set (resource_codes res) \<inter> set (subject_codes s) \<noteq> {})"
  by (auto simp: isEligible_def resource_codes_def subject_codes_def Let_def list_ex_iff
      split: option.splits)

lemma resource_codes_set_income: "resource_codes (set_income v res) = resource_codes res"
  by (simp add: resource_codes_def set_income_def split: option.splits)

text \<open>
  Claim C2. The filter accepts a resource whose code list is absent or empty; for a
  non-empty list it accepts exactly when some code of the resource is among the codes
  recorded for the subject. Replacing the income criterion of the resource by any other
  value leaves the answer unchanged. The filter is a function of its two arguments only.
\<close>

theorem C2_isEligible_code_intersection:
  "isEligible s res =
     (resource_codes res = [] \<or> set (resource_codes res) \<inter> set (subject_codes s) \<noteq> {}) \<and>
   isEligible s (set_income v res) = isEligible s res"
  by (simp add: isEligible_iff resource_codes_set_income)

section \<open>Properties of double rounding\<close>

lemma powi_of_bitlen:
  assumes "0 < p"
  shows "(2::rat) powi (bitlen p - 1) \<le> of_int p" and "of_int p < (2::rat) powi bitlen p"
proof -
  from bitlen_bounds [OF assms]
  have a: "2 ^ nat (bitlen p - 1) \<le> p" and b: "p < 2 ^ nat (bitlen p)" by simp_all
  have n: "1 \<le> bitlen p" using assms by (simp add: bitlen_alt_def)
  from a have "(of_int (2 ^ nat (bitlen p - 1)) :: rat) \<le> of_int p" by (simp only: of_int_le_iff)
  then show "(2::rat) powi (bitlen p - 1) \<le> of_int p"
    using n by (simp add: power_int_def)
  from b have "(of_int p :: rat) < of_int (2 ^ nat (bitlen p))" by (simp only: of_int_less_iff)
  then show "of_int p < (2::rat) powi bitlen p"
    using n by (simp add: power_int_def)
qed

lemma binade_bounds:
  assumes "x \<noteq> 0"
  shows "2 powi binade x \<le> \<bar>x\<bar> \<and> \<bar>x\<bar> < 2 powi (binade x + 1)"
proof -
  obtain p q where pq: "quotient_of \<bar>x\<bar> = (p, q)" by (cases "quotient_of \<bar>x\<bar>")
  then have q: "0 < q" by (rule quotient_of_denom_pos)
  from pq have x: "\<bar>x\<bar> = of_int p / of_int q" by (rule quotient_of_div)
  have "0 < \<bar>x\<bar>" using assms by simp
  with x q have p: "0 < p" by (simp add: zero_less_divide_iff)
  define d where "d = bitlen p - bitlen q"
  have up: "\<bar>x\<bar> < 2 powi (d + 1)"
  proof -
    have "of_int p / of_int q < (2::rat) powi bitlen p / of_int q"
      using powi_of_bitlen(2) [OF p] q by (simp add: divide_strict_right_mono)
    also have "\<dots> \<le> 2 powi bitlen p / 2 powi (bitlen q - 1)"
      using powi_of_bitlen(1) [OF q] q by (intro divide_left_mono) (simp_all add: mult_pos_pos)
    also have "\<dots> = 2 powi (d + 1)"
      by (simp add: d_def power_int_diff [symmetric] algebra_simps)
    finally show ?thesis using x by simp
  qed
  have lo: "2 powi (d - 1) \<le> \<bar>x\<bar>"
  proof -
    have "(2::rat) powi (d - 1) = 2 powi (bitlen p - 1) / 2 powi bitlen q"
      by (simp add: d_def power_int_diff [symmetric] algebra_simps)
    also have "\<dots> \<le> of_int p / 2 powi bitlen q"
      using powi_of_bitlen(1) [OF p] by (simp add: divide_right_mono)
    also have "\<dots> \<le> of_int p / of_int q"
      using powi_of_bitlen(2) [OF q] p q by (intro divide_left_mono) (simp_all add: mult_pos_pos)
    finally show ?thesis using x by simp
  qed
  show ?thesis
  proof (cases "2 powi d \<le> \<bar>x\<bar>")
    case True
    then have "binade x = d" by (simp add: binade_def pq d_def)
    with True up show ?thesis by simp
  next
    case False
    then have "binade x = d - 1" by (simp add: binade_def pq d_def)
    with False lo show ?thesis by simp
  qed
qed


lemma round_ties_even_cases:
  "(round_ties_even y = \<lfloor>y\<rfloor> \<and> y - of_int \<lfloor>y\<rfloor> \<le> 1 / 2) \<or>
   (round_ties_even y = \<lfloor>y\<rfloor> + 1 \<and> 1 / 2 \<le> y - of_int \<lfloor>y\<rfloor>)"
  unfolding round_ties_even_def Let_def by (simp del: of_int_floor_le)

lemma round_ties_even_rat_cases:
  obtains "(of_int (round_ties_even y) :: rat) = of_int \<lfloor>y\<rfloor>" "y - of_int \<lfloor>y\<rfloor> \<le> 1 / 2"
  | "(of_int (round_ties_even y) :: rat) = of_int \<lfloor>y\<rfloor> + 1" "1 / 2 \<le> y - of_int \<lfloor>y\<rfloor>"
  using round_ties_even_cases [of y] by (metis of_int_add of_int_1)

lemma round_ties_even_nearest: "\<bar>y - of_int (round_ties_even y)\<bar> \<le> \<bar>y - of_int j\<bar>"
proof -
  have f: "of_int \<lfloor>y\<rfloor> \<le> y" "y < of_int \<lfloor>y\<rfloor> + 1"
    using floor_correct [of y] by simp_all
  have "j \<le> \<lfloor>y\<rfloor> \<or> \<lfloor>y\<rfloor> + 1 \<le> j" by linarith
  then have j: "(of_int j :: rat) \<le> of_int \<lfloor>y\<rfloor> \<or> of_int \<lfloor>y\<rfloor> + 1 \<le> (of_int j :: rat)"
    by (metis of_int_le_iff of_int_add of_int_1)
  show ?thesis
  proof (cases y rule: round_ties_even_rat_cases)
    case 1
    from j show ?thesis
    proof
      assume "(of_int j :: rat) \<le> of_int \<lfloor>y\<rfloor>"
      with 1 f show ?thesis by linarith
    next
      assume "of_int \<lfloor>y\<rfloor> + 1 \<le> (of_int j :: rat)"
      with 1 f show ?thesis by linarith
    qed
  next
    case 2
    from j show ?thesis
    proof
      assume "(of_int j :: rat) \<le> of_int \<lfloor>y\<rfloor>"
      with 2 f show ?thesis by linarith
    next
      assume "of_int \<lfloor>y\<rfloor> + 1 \<le> (of_int j :: rat)"
      with 2 f show ?thesis by linarith
    qed
  qed
qed

lemma round_ties_even_half: "\<bar>y - of_int (round_ties_even y)\<bar> \<le> 1 / 2"
proof -
  have f: "of_int \<lfloor>y\<rfloor> \<le> y" "y < of_int \<lfloor>y\<rfloor> + 1"
    using floor_correct [of y] by simp_all
  show ?thesis
  proof (cases y rule: round_ties_even_rat_cases)
    case 1
    with f show ?thesis by linarith
  next
    case 2
    with f show ?thesis by linarith
  qed
qed

lemma round_ties_even_of_int [simp]: "round_ties_even (of_int j) = j"
  by (simp add: round_ties_even_def)

lemma binary64_scaled:
  assumes "x \<noteq> 0"
  defines "u \<equiv> 2 powi (binade x - 52)"
  shows "0 < u" and "binary64 x = of_int (round_ties_even (x / u)) * u"
    and "2 ^ 52 \<le> \<bar>x / u\<bar>" and "\<bar>x / u\<bar> < 2 ^ 53" and "2 ^ 52 * u = 2 powi binade x"
proof -
  show u: "0 < u" by (simp add: u_def)
  show "binary64 x = of_int (round_ties_even (x / u)) * u"
    using assms by (simp add: binary64_def Let_def)
  show e: "2 ^ 52 * u = 2 powi binade x"
    by (simp add: u_def power_int_diff)
  from binade_bounds [OF assms(1)]
  have lo: "2 powi binade x \<le> \<bar>x\<bar>" and hi: "\<bar>x\<bar> < 2 powi (binade x + 1)" by simp_all
  have "2 powi (binade x + 1) = 2 ^ 53 * u"
    by (simp add: u_def power_int_diff power_int_add)
  with hi have hi': "\<bar>x\<bar> < 2 ^ 53 * u" by simp
  from lo e have lo': "2 ^ 52 * u \<le> \<bar>x\<bar>" by simp
  have ab: "\<bar>x / u\<bar> = \<bar>x\<bar> / u" using u by (simp add: abs_divide)
  show "2 ^ 52 \<le> \<bar>x / u\<bar>" unfolding ab using lo' u by (simp add: le_divide_eq)
  show "\<bar>x / u\<bar> < 2 ^ 53" unfolding ab using hi' u by (simp add: divide_less_eq)
qed


lemma binary64_error: "\<bar>binary64 x - x\<bar> \<le> \<bar>x\<bar> / 2 ^ 53"
proof (cases "x = 0")
  case True
  then show ?thesis by (simp add: binary64_def)
next
  case False
  define u :: rat where "u = 2 powi (binade x - 52)"
  define y where "y = x / u"
  note s = binary64_scaled [OF False, folded u_def, folded y_def]
  have x: "x = y * u" using s(1) by (simp add: y_def)
  have "binary64 x - x = (of_int (round_ties_even y) - y) * u"
    by (simp add: s(2) x [symmetric] algebra_simps) (simp add: x)
  then have "\<bar>binary64 x - x\<bar> = \<bar>y - of_int (round_ties_even y)\<bar> * u"
    using s(1) by (simp add: abs_mult abs_minus_commute)
  also have "\<dots> \<le> (1 / 2) * u"
    using round_ties_even_half [of y] s(1) by (intro mult_right_mono) simp_all
  also have "\<dots> = (2 ^ 52 * u) / 2 ^ 53" by simp
  also have "\<dots> \<le> \<bar>x\<bar> / 2 ^ 53"
    using binade_bounds [OF False] s(5) by (intro divide_right_mono) simp_all
  finally show ?thesis .
qed

lemma binary64_representable: "representable (binary64 x)"
proof (cases "x = 0")
  case True
  have "(0::rat) = of_int 0 * 2 powi 0" by simp
  moreover have "\<bar>0::int\<bar> \<le> 2 ^ 53" by simp
  ultimately show ?thesis unfolding representable_def True binary64_def by (metis (full_types))
next
  case False
  define u :: rat where "u = 2 powi (binade x - 52)"
  define y where "y = x / u"
  note s = binary64_scaled [OF False, folded u_def, folded y_def]
  have "\<bar>(of_int (round_ties_even y) :: rat)\<bar> \<le> \<bar>y\<bar> + 1 / 2"
    using round_ties_even_half [of y] by linarith
  with s(4) have "\<bar>(of_int (round_ties_even y) :: rat)\<bar> < 2 ^ 53 + 1"
    by linarith
  then have "(of_int \<bar>round_ties_even y\<bar> :: rat) < of_int (2 ^ 53 + 1)" by simp
  then have "\<bar>round_ties_even y\<bar> < 2 ^ 53 + 1" by (simp only: of_int_less_iff)
  then have "\<bar>round_ties_even y\<bar> \<le> 2 ^ 53" by simp
  with s(2) show ?thesis unfolding representable_def u_def by blast
qed


lemma binary64_nearest:
  assumes "representable r"
  shows "\<bar>x - binary64 x\<bar> \<le> \<bar>x - r\<bar>"
proof (cases "x = 0")
  case True
  then show ?thesis by (simp add: binary64_def)
next
  case False
  define u :: rat where "u = 2 powi (binade x - 52)"
  define y where "y = x / u"
  define s where "s = r / u"
  note b = binary64_scaled [OF False, folded u_def, folded y_def]
  have x: "x = y * u" and r: "r = s * u" using b(1) by (simp_all add: y_def s_def)
  have key: "\<bar>y - of_int (round_ties_even y)\<bar> \<le> \<bar>y - s\<bar>"
  proof -
    from assms obtain m f where m: "\<bar>m\<bar> \<le> 2 ^ 53" and rm: "r = of_int m * 2 powi f"
      unfolding representable_def by blast
    have sm: "s = of_int m * 2 powi (f - (binade x - 52))"
      by (simp add: s_def rm u_def power_int_diff)
    show ?thesis
    proof (cases "binade x - 52 \<le> f")
      case True
      then obtain n where n: "f - (binade x - 52) = int n"
        by (metis diff_ge_0_iff_ge nonneg_int_cases)
      have "s = of_int (m * 2 ^ n)" by (simp add: sm n)
      then show ?thesis using round_ties_even_nearest [of y "m * 2 ^ n"] by simp
    next
      case False
      then have "f - (binade x - 52) \<le> - 1" by simp
      then have "(2::rat) powi (f - (binade x - 52)) \<le> 2 powi (- 1)"
        by (intro power_int_increasing) simp_all
      then have p: "(2::rat) powi (f - (binade x - 52)) \<le> 1 / 2" by (simp add: power_int_minus)
      have "\<bar>s\<bar> = \<bar>of_int m :: rat\<bar> * 2 powi (f - (binade x - 52))"
        by (simp add: sm abs_mult)
      also have "\<dots> \<le> 2 ^ 53 * (1 / 2)"
      proof (intro mult_mono p)
        have "(of_int \<bar>m\<bar> :: rat) \<le> of_int (2 ^ 53)" using m by (simp only: of_int_le_iff)
        then show "\<bar>of_int m :: rat\<bar> \<le> 2 ^ 53" by simp
      qed simp_all
      finally have sb: "\<bar>s\<bar> \<le> 2 ^ 52" by simp
      show ?thesis
      proof (cases "0 < y")
        case True
        with b(3) have "2 ^ 52 \<le> y" by simp
        with sb round_ties_even_nearest [of y "2 ^ 52"] show ?thesis by (simp; linarith)
      next
        case False
        with b(3) have "y \<le> - (2 ^ 52)" by simp
        with sb round_ties_even_nearest [of y "- (2 ^ 52)"] show ?thesis by (simp; linarith)
      qed
    qed
  qed
  have "x - binary64 x = (y - of_int (round_ties_even y)) * u"
    unfolding b(2) by (subst x) (simp add: algebra_simps)
  then have "\<bar>x - binary64 x\<bar> = \<bar>y - of_int (round_ties_even y)\<bar> * \<bar>u\<bar>"
    by (simp only: abs_mult)
  also have "\<dots> = \<bar>y - of_int (round_ties_even y)\<bar> * u" using b(1) by simp
  also have "\<dots> \<le> \<bar>y - s\<bar> * u" using key b(1) by (intro mult_right_mono) simp_all
  also have "\<dots> = \<bar>y - s\<bar> * \<bar>u\<bar>" using b(1) by simp
  also have "\<dots> = \<bar>(y - s) * u\<bar>" by (simp only: abs_mult)
  also have "(y - s) * u = x - r" by (simp add: x r algebra_simps)
  finally show ?thesis .
qed

lemma binary64_exact: "representable r \<Longrightarrow> binary64 r = r"
  using binary64_nearest [of r r] by simp

lemma binary64_zero [simp]: "binary64 0 = 0"
  by (simp add: binary64_def)

lemma binary64_mono:
  assumes "x \<le> y"
  shows "binary64 x \<le> binary64 y"
proof (rule ccontr)
  assume "\<not> binary64 x \<le> binary64 y"
  then have lt: "binary64 y < binary64 x" by simp
  then have ne: "x \<noteq> y" by auto
  from binary64_nearest [OF binary64_representable, of x y]
  have 1: "\<bar>x - binary64 x\<bar> \<le> \<bar>x - binary64 y\<bar>" .
  from binary64_nearest [OF binary64_representable, of y x]
  have 2: "\<bar>y - binary64 y\<bar> \<le> \<bar>y - binary64 x\<bar>" .
  from 1 2 lt assms ne show False by linarith
qed

lemma representable_of_int: "\<bar>k\<bar> \<le> 2 ^ 53 \<Longrightarrow> representable (of_int k)"
  unfolding representable_def
  by (rule exI [of _ k], rule exI [of _ 0]) simp

lemma binary64_of_nat_small: "n \<le> 100 \<Longrightarrow> binary64 (of_nat n) = of_nat n"
proof -
  assume "n \<le> 100"
  then have "\<bar>int n\<bar> \<le> 2 ^ 53" by simp
  from binary64_exact [OF representable_of_int [OF this]] show ?thesis by simp
qed

lemma percentage_error:
  assumes "0 < n" and "k \<le> n"
  shows "\<bar>binary64 (binary64 (of_nat k / of_nat n) * 100) - (of_nat k / of_nat n) * 100\<bar>
           \<le> 1 / 2 ^ 45"
proof -
  define q :: rat where "q = of_nat k / of_nat n"
  define Q where "Q = binary64 q"
  have q: "0 \<le> q" "q \<le> 1" using assms by (simp_all add: q_def)
  have e1: "\<bar>Q - q\<bar> \<le> 1 / 2 ^ 53"
  proof -
    have "\<bar>Q - q\<bar> \<le> \<bar>q\<bar> / 2 ^ 53" unfolding Q_def by (rule binary64_error)
    also have "\<dots> \<le> 1 / 2 ^ 53" using q by (intro divide_right_mono) simp_all
    finally show ?thesis .
  qed
  have "(1::rat) / 2 ^ 53 \<le> 1 / 100" by simp
  with e1 have "\<bar>Q - q\<bar> \<le> 1 / 100" by linarith
  with q have "\<bar>Q\<bar> \<le> 101 / 100" by linarith
  then have Qb: "\<bar>Q * 100\<bar> \<le> 101" by (simp add: abs_mult)
  have "\<bar>binary64 (Q * 100) - Q * 100\<bar> \<le> \<bar>Q * 100\<bar> / 2 ^ 53" by (rule binary64_error)
  also have "\<dots> \<le> 101 / 2 ^ 53" using Qb by (intro divide_right_mono) simp_all
  finally have e2: "\<bar>binary64 (Q * 100) - Q * 100\<bar> \<le> 101 / 2 ^ 53" .
  have "\<bar>binary64 (Q * 100) - q * 100\<bar> \<le> 101 / 2 ^ 53 + 100 * (1 / 2 ^ 53)"
    using e1 e2 by linarith
  also have "\<dots> \<le> 1 / 2 ^ 45" by simp
  finally show ?thesis unfolding Q_def q_def .
qed

lemma percentage_floor:
  "0 < n \<Longrightarrow> percentage k n = \<lfloor>binary64 (binary64 (of_nat k / of_nat n) * 100) + 1 / 2\<rfloor>"
  by (simp add: percentage_def)

lemma percentage_close:
  assumes "0 < n" and "k \<le> n"
  shows "\<bar>of_int (percentage k n) - (of_nat k / of_nat n) * (100 :: rat)\<bar> \<le> 1 / 2 + 1 / 2 ^ 45"
proof -
  define P where "P = binary64 (binary64 (of_nat k / of_nat n) * 100)"
  have e: "\<bar>P - (of_nat k / of_nat n) * 100\<bar> \<le> 1 / 2 ^ 45"
    unfolding P_def by (rule percentage_error [OF assms])
  have p: "percentage k n = \<lfloor>P + 1 / 2\<rfloor>"
    using assms(1) by (simp add: percentage_floor P_def)
  have lo: "of_int \<lfloor>P + 1 / 2\<rfloor> \<le> P + 1 / 2" by (rule of_int_floor_le)
  have hi: "P + 1 / 2 < of_int \<lfloor>P + 1 / 2\<rfloor> + 1"
    using floor_correct [of "P + 1 / 2"] by simp
  show ?thesis unfolding p using e lo hi by linarith
qed

lemma percentage_sum:
  assumes "a + b + c = n" and "0 < n"
  shows "99 \<le> percentage a n + percentage b n + percentage c n \<and>
         percentage a n + percentage b n + percentage c n \<le> 101"
proof -
  define x :: rat where "x = (of_nat a / of_nat n) * 100"
  define y :: rat where "y = (of_nat b / of_nat n) * 100"
  define z :: rat where "z = (of_nat c / of_nat n) * 100"
  have n: "(of_nat n :: rat) > 0" using assms by simp
  have "x + y + z = (of_nat (a + b + c) / of_nat n) * 100"
    by (simp add: x_def y_def z_def add_divide_distrib algebra_simps)
  with assms n have s: "x + y + z = 100" by simp
  have le: "a \<le> n" "b \<le> n" "c \<le> n" using assms by simp_all
  note cx = percentage_close [OF assms(2) le(1), folded x_def]
  note cy = percentage_close [OF assms(2) le(2), folded y_def]
  note cz = percentage_close [OF assms(2) le(3), folded z_def]
  define S where "S = percentage a n + percentage b n + percentage c n"
  have e: "(1::rat) / 2 ^ 45 \<le> 1 / 100" by simp
  have "(of_int S :: rat) < 102" "(98 :: rat) < of_int S"
    unfolding S_def of_int_add using cx cy cz s e by linarith+
  then have "S < 102" "98 < S" by simp_all
  then show ?thesis by (simp add: S_def)
qed

lemma percentage_range:
  assumes "k \<le> n"
  shows "0 \<le> percentage k n \<and> percentage k n \<le> 100"
proof (cases "n = 0")
  case True
  then show ?thesis by (simp add: percentage_def)
next
  case False
  define q :: rat where "q = of_nat k / of_nat n"
  have q: "0 \<le> q" "q \<le> 1" using assms False by (simp_all add: q_def)
  have "binary64 0 \<le> binary64 q" "binary64 q \<le> binary64 1"
    using q by (simp_all only: binary64_mono)
  moreover have "binary64 1 = 1" using binary64_of_nat_small [of 1] by simp
  ultimately have Q: "0 \<le> binary64 q * 100" "binary64 q * 100 \<le> 100" by simp_all
  have "binary64 0 \<le> binary64 (binary64 q * 100)"
    "binary64 (binary64 q * 100) \<le> binary64 100"
    using Q by (simp_all only: binary64_mono)
  moreover have "binary64 100 = 100" using binary64_of_nat_small [of 100] by simp
  ultimately have P: "0 \<le> binary64 (binary64 q * 100)" "binary64 (binary64 q * 100) \<le> 100"
    by simp_all
  have "0 \<le> \<lfloor>binary64 (binary64 q * 100) + 1 / 2\<rfloor>" using P(1) by simp
  moreover have "\<lfloor>binary64 (binary64 q * 100) + 1 / 2\<rfloor> \<le> 100"
  proof -
    have "binary64 (binary64 q * 100) + 1 / 2 < 101" using P(2) by linarith
    then show ?thesis by (simp add: floor_le_iff)
  qed
  ultimately show ?thesis using False by (simp add: percentage_def q_def)
qed

lemma percentage_antimono:
  assumes "a \<le> n"
  shows "percentage a (Suc n) \<le> percentage a n"
proof (cases "n = 0")
  case True
  with assms have "a = 0" by simp
  with True show ?thesis by (simp add: percentage_def)
next
  case False
  then have "(of_nat a :: rat) / of_nat (Suc n) \<le> of_nat a / of_nat n"
    by (intro divide_left_mono) simp_all
  then have "binary64 (of_nat a / of_nat (Suc n)) \<le> binary64 (of_nat a / of_nat n)"
    by (rule binary64_mono)
  then have "binary64 (of_nat a / of_nat (Suc n)) * 100 \<le> binary64 (of_nat a / of_nat n) * 100"
    by simp
  then have "binary64 (binary64 (of_nat a / of_nat (Suc n)) * 100)
               \<le> binary64 (binary64 (of_nat a / of_nat n) * 100)"
    by (rule binary64_mono)
  then have "\<lfloor>binary64 (binary64 (of_nat a / of_nat (Suc n)) * 100) + 1 / 2\<rfloor>
               \<le> \<lfloor>binary64 (binary64 (of_nat a / of_nat n) * 100) + 1 / 2\<rfloor>"
    by (intro floor_mono) simp
  with False show ?thesis by (simp add: percentage_def del: of_nat_Suc)
qed

lemma percentage_23_of_40: "percentage 23 40 = 57"
  by code_simp

section \<open>The service against the reference quantities\<close>

lemma foldl_plus: "foldl (\<lambda>a b. a + b) (a::int) xs = a + sum_list xs"
  by (induction xs arbitrary: a) auto

lemma fold_dimension:
  fixes scores :: "string \<Rightarrow> int option" and t :: int and c :: nat
  shows "fold (\<lambda>d (t, c). case scores d of Some s \<Rightarrow> (t + s, c + 1) | None \<Rightarrow> (t, c)) ds (t, c)
     = (t + sum_list (List.map_filter scores ds), c + length (List.map_filter scores ds))"
  by (induction ds arbitrary: t c) (auto simp: List.map_filter_simps split: option.splits)

lemma wellness_lookup_scores:
  "riskProfile e = Some rp \<Longrightarrow> wellnessScores rp = Some scores \<Longrightarrow> wellness_lookup e = scores"
  by (rule ext) (simp add: wellness_lookup_def)

lemma present_scores_no_profile: "riskProfile e = None \<Longrightarrow> present_scores e = []"
  by (simp add: present_scores_def wellness_lookup_def List.map_filter_def)

lemma present_scores_no_scores:
  "riskProfile e = Some rp \<Longrightarrow> wellnessScores rp = None \<Longrightarrow> present_scores e = []"
  by (simp add: present_scores_def wellness_lookup_def List.map_filter_def)

lemma add_scores_eq:
  "add_scores e (t, c) = (t + sum_list (present_scores e), c + length (present_scores e))"
proof (cases "riskProfile e")
  case None
  then show ?thesis by (simp add: add_scores_def present_scores_no_profile)
next
  case (Some rp)
  show ?thesis
  proof (cases "wellnessScores rp")
    case None
    with Some show ?thesis by (simp add: add_scores_def present_scores_no_scores)
  next
    case (Some scores)
    with \<open>riskProfile e = Some rp\<close> show ?thesis
      by (simp add: add_scores_def present_scores_def wellness_lookup_scores fold_dimension)
  qed
qed

lemma fold_add_scores:
  "fold add_scores es (t, c) = (t + sum_list (all_scores es), c + length (all_scores es))"
  by (induction es arbitrary: t c) (auto simp: add_scores_eq all_scores_def)

lemma calculateAverageWellness_eq:
  "calculateAverageWellness es = Fin (of_int (population_average es))"
  by (auto simp: calculateAverageWellness_def fold_add_scores population_average_def all_scores_def)

lemma calculateEnrolleeWellness_eq: "calculateEnrolleeWellness e = Fin (mean_present e)"
proof (cases "riskProfile e")
  case None
  then show ?thesis
    by (simp add: calculateEnrolleeWellness_def mean_present_def present_scores_no_profile)
next
  case (Some rp)
  show ?thesis
  proof (cases "wellnessScores rp")
    case None
    with Some show ?thesis
      by (simp add: calculateEnrolleeWellness_def mean_present_def present_scores_no_scores)
  next
    case (Some scores)
    with \<open>riskProfile e = Some rp\<close> show ?thesis
      by (simp add: calculateEnrolleeWellness_def mean_present_def present_scores_def
          wellness_lookup_scores foldl_plus Let_def)
  qed
qed

lemma floor_half [simp]: "\<lfloor>1 / 2 :: rat\<rfloor> = 0"
  by (rule floor_unique) simp_all

lemma calculateWellnessScore_eq: "calculateWellnessScore e = perSubjectWellness_spec e"
proof (cases "riskProfile e")
  case None
  then show ?thesis
    by (simp add: calculateWellnessScore_def perSubjectWellness_spec_def score_or_zero_def
        wellness_lookup_def dimensions_def)
next
  case (Some rp)
  show ?thesis
  proof (cases "wellnessScores rp")
    case None
    with Some show ?thesis
      by (simp add: calculateWellnessScore_def perSubjectWellness_spec_def score_or_zero_def
        wellness_lookup_def dimensions_def)
  next
    case (Some scores)
    with \<open>riskProfile e = Some rp\<close> show ?thesis
      by (simp add: calculateWellnessScore_def perSubjectWellness_spec_def score_or_zero_def
        wellness_lookup_def dimensions_def add.assoc Let_def)
  qed
qed

lemma js_gt_Fin: "js_gt (Fin w) (Fin b) = (b < w)"
  by (simp add: js_gt_def)

lemma js_lt_sub_Fin: "js_lt (Fin w) (js_sub (Fin a) (Fin b)) = (w < a - b)"
  by (simp add: js_sub_def)

lemma js_le_abs_Fin: "js_le (Math_abs (js_sub (Fin w) (Fin a))) (Fin b) = (\<bar>w - a\<bar> \<le> b)"
  by (auto simp: js_sub_def)

lemma trend_of_cases:
  "(trend_of w a = Improving) = (a + 10 < w)"
  "(trend_of w a = Stable) = (\<bar>w - a\<bar> \<le> 10)"
  "(trend_of w a = Declining) = (w < a - 10)"
  by (auto simp: trend_of_def)

lemma trend_counts:
  "improving (calculateTrends es) =
     length (filter (\<lambda>e. trend_of (mean_present e) (of_int (population_average es)) = Improving) es)"
  "stable (calculateTrends es) =
     length (filter (\<lambda>e. trend_of (mean_present e) (of_int (population_average es)) = Stable) es)"
  "declining (calculateTrends es) =
     length (filter (\<lambda>e. trend_of (mean_present e) (of_int (population_average es)) = Declining) es)"
  by (simp_all add: calculateTrends_def Let_def calculateAverageWellness_eq
      calculateEnrolleeWellness_eq js_gt_Fin js_lt_sub_Fin js_le_abs_Fin trend_of_cases)

lemma filter_trend_partition:
  "length (filter (\<lambda>x. f x = Improving) xs) + length (filter (\<lambda>x. f x = Stable) xs)
     + length (filter (\<lambda>x. f x = Declining) xs) = length xs"
proof (induction xs)
  case Nil
  show ?case by simp
next
  case (Cons x xs)
  then show ?case by (cases "f x") simp_all
qed

lemma trend_percents:
  "improvingPercent (calculateTrends es) =
     Fin (of_int (percentage (improving (calculateTrends es)) (length es)))"
  "stablePercent (calculateTrends es) =
     Fin (of_int (percentage (stable (calculateTrends es)) (length es)))"
  "decliningPercent (calculateTrends es) =
     Fin (of_int (percentage (declining (calculateTrends es)) (length es)))"
  by (simp_all add: calculateTrends_def Let_def percentage_def)

lemma trend_conditions_exclusive:
  "of_bool (js_gt (calculateEnrolleeWellness e) (js_add (calculateAverageWellness es) (Fin 10)))
   + of_bool (js_le (Math_abs (js_sub (calculateEnrolleeWellness e) (calculateAverageWellness es)))
                    (Fin 10))
   + of_bool (js_lt (calculateEnrolleeWellness e) (js_sub (calculateAverageWellness es) (Fin 10)))
   = (1 :: nat)"
  by (auto simp: calculateAverageWellness_eq calculateEnrolleeWellness_eq js_gt_Fin
      js_lt_sub_Fin js_le_abs_Fin)

lemma js_le_Fin: "js_le (Fin a) (Fin b) = (a \<le> b)"
  by auto

lemma tier_is_exclusive: "tier_is j e \<Longrightarrow> tier_is k e \<Longrightarrow> j = k"
  by (auto simp: tier_is_def split: option.splits)

lemma tier_counts_sum:
  "length (filter (tier_is 1) es) + length (filter (tier_is 2) es) + length (filter (tier_is 3) es)
     = length (filter has_tier es)"
proof (induction es)
  case Nil
  show ?case by simp
next
  case (Cons e es)
  have "\<not> (tier_is 1 e \<and> tier_is 2 e)" "\<not> (tier_is 1 e \<and> tier_is 3 e)"
       "\<not> (tier_is 2 e \<and> tier_is 3 e)"
    using tier_is_exclusive by fastforce+
  with Cons show ?case by (auto simp: has_tier_def)
qed

lemma risk_counts:
  "tier1 (calculateRiskDistribution es) = length (filter (tier_is 1) es)"
  "tier2 (calculateRiskDistribution es) = length (filter (tier_is 2) es)"
  "tier3 (calculateRiskDistribution es) = length (filter (tier_is 3) es)"
  by (simp_all add: calculateRiskDistribution_def Let_def)

lemma risk_percents:
  "tier1Percent (calculateRiskDistribution es) =
     Fin (of_int (percentage (tier1 (calculateRiskDistribution es)) (length es)))"
  "tier2Percent (calculateRiskDistribution es) =
     Fin (of_int (percentage (tier2 (calculateRiskDistribution es)) (length es)))"
  "tier3Percent (calculateRiskDistribution es) =
     Fin (of_int (percentage (tier3 (calculateRiskDistribution es)) (length es)))"
  by (simp_all add: calculateRiskDistribution_def Let_def percentage_def)

lemma filter_has_tier_all: "list_all has_tier es \<Longrightarrow> filter has_tier es = es"
  by (induction es) auto

lemma percentage_nearest:
  assumes "0 < n" and "n < 2 ^ 32" and "k \<le> n"
  shows "nearest_percent (percentage k n) k n"
proof -
  define M where "M = percentage k n"
  define x :: rat where "x = (of_nat k / of_nat n) * 100"
  define I where "I = 2 * int n * M - 200 * int k"
  have n: "(0::rat) < of_nat n" using assms(1) by simp
  have I: "(of_int I :: rat) = 2 * of_nat n * (of_int M - x)"
    using n by (simp add: I_def x_def algebra_simps)
  have c: "\<bar>of_int M - x\<bar> \<le> 1 / 2 + 1 / 2 ^ 45"
    unfolding M_def x_def by (rule percentage_close [OF assms(1,3)])
  have nb: "(of_nat n :: rat) < 2 ^ 32"
  proof -
    have "(of_nat n :: rat) < of_nat (2 ^ 32)" using assms(2) by (simp only: of_nat_less_iff)
    then show ?thesis by simp
  qed
  have "\<bar>of_int I :: rat\<bar> = 2 * of_nat n * \<bar>of_int M - x\<bar>"
    using n by (simp add: I abs_mult)
  also have "\<dots> \<le> 2 * of_nat n * (1 / 2 + 1 / 2 ^ 45)"
    using c n by (intro mult_left_mono) simp_all
  also have "\<dots> = of_nat n + of_nat n * (1 / 2 ^ 44)" by (simp add: algebra_simps)
  also have "\<dots> < of_nat n + 1"
  proof -
    have "(of_nat n :: rat) * (1 / 2 ^ 44) < 2 ^ 32 * (1 / 2 ^ 44)"
      using nb by (intro mult_strict_right_mono) simp_all
    also have "\<dots> \<le> 1" by simp
    finally show ?thesis by simp
  qed
  finally have "(of_int \<bar>I\<bar> :: rat) < of_int (int n + 1)" by simp
  then have "\<bar>I\<bar> < int n + 1" by (simp only: of_int_less_iff)
  then have "\<bar>I\<bar> \<le> int n" by simp
  then have "(of_int \<bar>I\<bar> :: rat) \<le> of_int (int n)" by (simp only: of_int_le_iff)
  then have "\<bar>of_int I :: rat\<bar> \<le> of_nat n" by simp
  then have "2 * of_nat n * \<bar>of_int M - x\<bar> \<le> of_nat n"
    using n by (simp add: I abs_mult)
  then have "\<bar>of_int M - x\<bar> \<le> 1 / 2" using n by (simp add: field_simps)
  then show ?thesis by (simp add: M_def x_def nearest_percent_def)
qed

section \<open>Per-subject wellness and trend classification\<close>

text \<open>
  Claim C3, as stated, fails on the analytics service. The claim lets the rounded mean
  with 0 substituted for a missing dimension hold for every per-subject wellness value,
  the one fed into trend classification included. For an enrollee with seven dimensions
  at 80 and the eighth missing, \<open>calculateEnrolleeWellness\<close> (the value the trend
  classification consumes) is 80, while the zero-substituted rounded mean is 70.
\<close>

theorem C3_analytics_wellness_differs:
  "calculateEnrolleeWellness seven_of_eight = Fin 80 \<and>
   perSubjectWellness_spec seven_of_eight = Fin 70 \<and>
   calculateEnrolleeWellness seven_of_eight \<noteq> perSubjectWellness_spec seven_of_eight"
proof -
  have a: "calculateEnrolleeWellness seven_of_eight = Fin 80" by code_simp
  have b: "perSubjectWellness_spec seven_of_eight = Fin 70" by code_simp
  show ?thesis unfolding a b by simp
qed

text \<open>
  Claim C3, amended. The wellness score of the application shell,
  \<open>calculateWellnessScore\<close>, is the mean of the eight named dimensions with 0 substituted
  for a missing one, rounded to the nearest integer: eight dimensions at 80 give 80, seven
  at 80 and one missing give 70. The per-subject value of the analytics service,
  \<open>calculateEnrolleeWellness\<close>, is the unrounded mean of the dimensions that are present,
  and 0 when none is.
\<close>

theorem C3_calculateWellnessScore_rounded_mean:
  "calculateWellnessScore e = perSubjectWellness_spec e \<and>
   calculateWellnessScore (uniform_enrollee 80) = Fin 80 \<and>
   calculateWellnessScore seven_of_eight = Fin 70 \<and>
   calculateEnrolleeWellness e = Fin (mean_present e)"
proof -
  have "calculateWellnessScore (uniform_enrollee 80) = Fin 80" by code_simp
  moreover have "calculateWellnessScore seven_of_eight = Fin 70" by code_simp
  ultimately show ?thesis
    by (simp add: calculateWellnessScore_eq calculateEnrolleeWellness_eq)
qed

text \<open>
  Claim C5, as stated, fails: the trend classification does not use the zero-substituted
  per-subject wellness. In a population of one enrollee whose only score is
  \<open>physical = 80\<close> the population average is 80 and the zero-substituted wellness is 10,
  more than 10 points below the average, so the claim classifies the enrollee as
  declining; \<open>calculateTrends\<close> counts the enrollee as stable.
\<close>

theorem C5_trend_ignores_zero_substitution:
  "calculateAverageWellness [physical_only] = Fin 80 \<and>
   perSubjectWellness_spec physical_only = Fin 10 \<and>
   js_lt (perSubjectWellness_spec physical_only)
         (js_sub (calculateAverageWellness [physical_only]) (Fin 10)) \<and>
   declining (calculateTrends [physical_only]) = 0 \<and>
   stable (calculateTrends [physical_only]) = 1"
  by code_simp

text \<open>
  Claim C5, amended. For every list of subjects, \<open>calculateTrends\<close> counts as improving
  the subjects whose analytics wellness (\<open>calculateEnrolleeWellness\<close>, the unrounded mean
  of the dimensions present) is strictly more than 10 points above the rounded population
  average, as declining those strictly more than 10 points below it, and as stable the
  others. With a population average of 50, a wellness of 65 is improving, 50 is stable
  and 30 is declining; the sample population with uniform scores 65, 50, 30 and 55 has
  average 50 and one improving, two stable and one declining subject.
\<close>

theorem C5_trend_classification:
  "calculateAverageWellness es = Fin (of_int (population_average es)) \<and>
   calculateEnrolleeWellness e = Fin (mean_present e) \<and>
   improving (calculateTrends es) =
     length (filter (\<lambda>e. trend_of (mean_present e) (of_int (population_average es)) = Improving) es) \<and>
   stable (calculateTrends es) =
     length (filter (\<lambda>e. trend_of (mean_present e) (of_int (population_average es)) = Stable) es) \<and>
   declining (calculateTrends es) =
     length (filter (\<lambda>e. trend_of (mean_present e) (of_int (population_average es)) = Declining) es) \<and>
   trend_of 65 50 = Improving \<and> trend_of 50 50 = Stable \<and> trend_of 30 50 = Declining \<and>
   calculateAverageWellness sample_population = Fin 50 \<and>
   map calculateEnrolleeWellness sample_population = [Fin 65, Fin 50, Fin 30, Fin 55] \<and>
   improving (calculateTrends sample_population) = 1 \<and>
   stable (calculateTrends sample_population) = 2 \<and>
   declining (calculateTrends sample_population) = 1"
proof -
  have "calculateAverageWellness sample_population = Fin 50" by code_simp
  moreover have
    "map calculateEnrolleeWellness sample_population = [Fin 65, Fin 50, Fin 30, Fin 55]"
    by code_simp
  moreover have "improving (calculateTrends sample_population) = 1" by code_simp
  moreover have "stable (calculateTrends sample_population) = 2" by code_simp
  moreover have "declining (calculateTrends sample_population) = 1" by code_simp
  moreover have
    "trend_of 65 50 = Improving \<and> trend_of 50 50 = Stable \<and> trend_of 30 50 = Declining"
    by (simp add: trend_of_def)
  ultimately show ?thesis
    by (simp add: calculateAverageWellness_eq calculateEnrolleeWellness_eq trend_counts)
qed

text \<open>
  Claim C10. For every list of subjects and every subject, exactly one of the three
  conditions of \<open>calculateTrends\<close> holds (wellness above average + 10, absolute
  difference at most 10, wellness below average - 10); each bucket count is the number
  of subjects that satisfy its condition, so the three bucket counts sum to the number
  of subjects. Each bucket percentage is \<open>Math.round\<close> of the double
  \<open>(count / total) * 100\<close> over that same total (0 for the empty list); for a non-empty
  list of fewer than \<open>2 ^ 32\<close> subjects it is an integer nearest to the exact percentage.
  The risk-tier counts can undercount: for a single enrollee without a tier they sum
  to 0.
\<close>

theorem C10_trend_buckets_partition:
  "(\<forall>e. of_bool (js_gt (calculateEnrolleeWellness e)
                       (js_add (calculateAverageWellness es) (Fin 10)))
        + of_bool (js_le (Math_abs (js_sub (calculateEnrolleeWellness e)
                                           (calculateAverageWellness es)))
                         (Fin 10))
        + of_bool (js_lt (calculateEnrolleeWellness e)
                         (js_sub (calculateAverageWellness es) (Fin 10)))
        = (1 :: nat)) \<and>
   improving (calculateTrends es) =
     length (filter (\<lambda>e. js_gt (calculateEnrolleeWellness e)
                              (js_add (calculateAverageWellness es) (Fin 10))) es) \<and>
   stable (calculateTrends es) =
     length (filter (\<lambda>e. js_le (Math_abs (js_sub (calculateEnrolleeWellness e)
                                                  (calculateAverageWellness es)))
                              (Fin 10)) es) \<and>
   declining (calculateTrends es) =
     length (filter (\<lambda>e. js_lt (calculateEnrolleeWellness e)
                              (js_sub (calculateAverageWellness es) (Fin 10))) es) \<and>
   improving (calculateTrends es) + stable (calculateTrends es) + declining (calculateTrends es)
     = length es \<and>
   improvingPercent (calculateTrends es) =
     Fin (of_int (percentage (improving (calculateTrends es)) (length es))) \<and>
   stablePercent (calculateTrends es) =
     Fin (of_int (percentage (stable (calculateTrends es)) (length es))) \<and>
   decliningPercent (calculateTrends es) =
     Fin (of_int (percentage (declining (calculateTrends es)) (length es))) \<and>
   (es \<noteq> [] \<and> length es < 2 ^ 32 \<longrightarrow>
      nearest_percent (percentage (improving (calculateTrends es)) (length es))
                      (improving (calculateTrends es)) (length es) \<and>
      nearest_percent (percentage (stable (calculateTrends es)) (length es))
                      (stable (calculateTrends es)) (length es) \<and>
      nearest_percent (percentage (declining (calculateTrends es)) (length es))
                      (declining (calculateTrends es)) (length es)) \<and>
   tier1 (calculateRiskDistribution [unassessed_enrollee])
     + tier2 (calculateRiskDistribution [unassessed_enrollee])
     + tier3 (calculateRiskDistribution [unassessed_enrollee]) < length [unassessed_enrollee]"
proof -
  let ?t = "calculateTrends es"
  have u: "tier1 (calculateRiskDistribution [unassessed_enrollee])
     + tier2 (calculateRiskDistribution [unassessed_enrollee])
     + tier3 (calculateRiskDistribution [unassessed_enrollee]) < length [unassessed_enrollee]"
    by code_simp
  have i: "improving ?t =
     length (filter (\<lambda>e. js_gt (calculateEnrolleeWellness e)
                              (js_add (calculateAverageWellness es) (Fin 10))) es)"
    by (simp add: calculateTrends_def Let_def)
  have s: "stable ?t =
     length (filter (\<lambda>e. js_le (Math_abs (js_sub (calculateEnrolleeWellness e)
                                                  (calculateAverageWellness es)))
                              (Fin 10)) es)"
    by (simp add: calculateTrends_def Let_def)
  have d: "declining ?t =
     length (filter (\<lambda>e. js_lt (calculateEnrolleeWellness e)
                              (js_sub (calculateAverageWellness es) (Fin 10))) es)"
    by (simp add: calculateTrends_def Let_def)
  have sum: "improving ?t + stable ?t + declining ?t = length es"
    by (simp add: trend_counts filter_trend_partition)
  have near: "nearest_percent (percentage (improving ?t) (length es)) (improving ?t) (length es) \<and>
      nearest_percent (percentage (stable ?t) (length es)) (stable ?t) (length es) \<and>
      nearest_percent (percentage (declining ?t) (length es)) (declining ?t) (length es)"
    if "es \<noteq> []" "length es < 2 ^ 32"
  proof -
    have n: "0 < length es" using that(1) by simp
    have "improving ?t \<le> length es" "stable ?t \<le> length es" "declining ?t \<le> length es"
      using sum by linarith+
    then show ?thesis using percentage_nearest [OF n that(2)] by blast
  qed
  have ex: "\<forall>e. of_bool (js_gt (calculateEnrolleeWellness e)
                       (js_add (calculateAverageWellness es) (Fin 10)))
        + of_bool (js_le (Math_abs (js_sub (calculateEnrolleeWellness e)
                                           (calculateAverageWellness es)))
                         (Fin 10))
        + of_bool (js_lt (calculateEnrolleeWellness e)
                         (js_sub (calculateAverageWellness es) (Fin 10)))
        = (1 :: nat)"
    using trend_conditions_exclusive by blast
  show ?thesis
    using u i s d sum near ex trend_percents [of es] by blast
qed

theorem C10_trend_buckets_witness:
  "forty_subjects \<noteq> [] \<and> length forty_subjects < 2 ^ 32 \<and>
   improving (calculateTrends forty_subjects) + stable (calculateTrends forty_subjects)
     + declining (calculateTrends forty_subjects) = length forty_subjects \<and>
   nearest_percent (percentage (improving (calculateTrends forty_subjects))
                               (length forty_subjects))
                   (improving (calculateTrends forty_subjects)) (length forty_subjects) \<and>
   calculateAverageWellness forty_subjects = Fin 66 \<and>
   improving (calculateTrends forty_subjects) = 23 \<and>
   stable (calculateTrends forty_subjects) = 0 \<and>
   declining (calculateTrends forty_subjects) = 17 \<and>
   length forty_subjects = 40 \<and>
   improvingPercent (calculateTrends forty_subjects) = Fin 57 \<and>
   stablePercent (calculateTrends forty_subjects) = Fin 0 \<and>
   decliningPercent (calculateTrends forty_subjects) = Fin 43"
proof -
  have n: "forty_subjects \<noteq> []" by (simp add: forty_subjects_def)
  have l: "length forty_subjects = 40" by (simp add: forty_subjects_def)
  have b: "length forty_subjects < 2 ^ 32" unfolding l by simp
  have m: "mean_present (uniform_enrollee 90) = 90" "mean_present (uniform_enrollee 33) = 33"
    by code_simp+
  have pa: "population_average forty_subjects = 66" by code_simp
  have a: "calculateAverageWellness forty_subjects = Fin 66"
    by (simp add: calculateAverageWellness_eq pa)
  have i: "improving (calculateTrends forty_subjects) = 23"
    unfolding trend_counts pa by (simp add: forty_subjects_def m trend_of_def)
  have s: "stable (calculateTrends forty_subjects) = 0"
    unfolding trend_counts pa by (simp add: forty_subjects_def m trend_of_def)
  have d: "declining (calculateTrends forty_subjects) = 17"
    unfolding trend_counts pa by (simp add: forty_subjects_def m trend_of_def)
  have p1: "improvingPercent (calculateTrends forty_subjects) = Fin 57"
    unfolding trend_percents i l by (simp add: percentage_23_of_40)
  have p2: "stablePercent (calculateTrends forty_subjects) = Fin 0"
    unfolding trend_percents s l by (simp add: percentage_def)
  have p17: "percentage 17 40 = 43" by code_simp
  have p3: "decliningPercent (calculateTrends forty_subjects) = Fin 43"
    unfolding trend_percents d l by (simp add: p17)
  show ?thesis
    using C10_trend_buckets_partition [of forty_subjects] n b l a i s d p1 p2 p3 by blast
qed

section \<open>Risk distribution\<close>

text \<open>
  Claim C4, as stated, fails on lists that contain a subject without a tier. For the
  population of one enrollee whose tier is absent and one whose tier is the string
  \<open>unassessed\<close>, the three tier counts sum to 0 while the list has length 2, and the
  three percentages are 0, 0 and 0, which do not sum to about 100.
\<close>

theorem C4_unassessed_not_counted:
  "tier1 (calculateRiskDistribution untiered_population)
     + tier2 (calculateRiskDistribution untiered_population)
     + tier3 (calculateRiskDistribution untiered_population) \<noteq> length untiered_population \<and>
   tier1 (calculateRiskDistribution untiered_population)
     + tier2 (calculateRiskDistribution untiered_population)
     + tier3 (calculateRiskDistribution untiered_population) = 0 \<and>
   length untiered_population = 2 \<and>
   tier1Percent (calculateRiskDistribution untiered_population) = Fin 0 \<and>
   tier2Percent (calculateRiskDistribution untiered_population) = Fin 0 \<and>
   tier3Percent (calculateRiskDistribution untiered_population) = Fin 0"
proof -
  have z: "tier1 (calculateRiskDistribution untiered_population)
     + tier2 (calculateRiskDistribution untiered_population)
     + tier3 (calculateRiskDistribution untiered_population) = 0"
    by code_simp
  have l: "length untiered_population = 2" by (simp add: untiered_population_def)
  have "tier1Percent (calculateRiskDistribution untiered_population) = Fin 0 \<and>
   tier2Percent (calculateRiskDistribution untiered_population) = Fin 0 \<and>
   tier3Percent (calculateRiskDistribution untiered_population) = Fin 0"
    by code_simp
  with z l show ?thesis by simp
qed

text \<open>
  Claim C4, amended. For every list of subjects, the three tier counts sum to the number
  of subjects whose tier is the number 1, 2 or 3, which is at most the length of the
  list. Each percentage field is \<open>Math.round\<close> of the double \<open>(count / total) * 100\<close>
  over the total subject count (0 for the empty list); for a non-empty list of fewer than
  \<open>2 ^ 32\<close> subjects it is an integer nearest to the exact percentage. When every
  subject has a tier 1, 2 or 3, the counts sum to the length of the list and, for a
  non-empty list, the three percentage fields sum to 99, 100 or 101.
\<close>

theorem C4_tier_counts_cover_assessed:
  "tier1 (calculateRiskDistribution es) + tier2 (calculateRiskDistribution es)
     + tier3 (calculateRiskDistribution es) = length (filter has_tier es) \<and>
   tier1 (calculateRiskDistribution es) + tier2 (calculateRiskDistribution es)
     + tier3 (calculateRiskDistribution es) \<le> length es \<and>
   tier1Percent (calculateRiskDistribution es) =
     Fin (of_int (percentage (tier1 (calculateRiskDistribution es)) (length es))) \<and>
   tier2Percent (calculateRiskDistribution es) =
     Fin (of_int (percentage (tier2 (calculateRiskDistribution es)) (length es))) \<and>
   tier3Percent (calculateRiskDistribution es) =
     Fin (of_int (percentage (tier3 (calculateRiskDistribution es)) (length es))) \<and>
   (es \<noteq> [] \<and> length es < 2 ^ 32 \<longrightarrow>
      nearest_percent (percentage (tier1 (calculateRiskDistribution es)) (length es))
                      (tier1 (calculateRiskDistribution es)) (length es) \<and>
      nearest_percent (percentage (tier2 (calculateRiskDistribution es)) (length es))
                      (tier2 (calculateRiskDistribution es)) (length es) \<and>
      nearest_percent (percentage (tier3 (calculateRiskDistribution es)) (length es))
                      (tier3 (calculateRiskDistribution es)) (length es)) \<and>
   (list_all has_tier es \<longrightarrow>
      tier1 (calculateRiskDistribution es) + tier2 (calculateRiskDistribution es)
        + tier3 (calculateRiskDistribution es) = length es \<and>
      (es \<noteq> [] \<longrightarrow>
         js_le (Fin 99)
               (js_add (js_add (tier1Percent (calculateRiskDistribution es))
                               (tier2Percent (calculateRiskDistribution es)))
                       (tier3Percent (calculateRiskDistribution es))) \<and>
         js_le (js_add (js_add (tier1Percent (calculateRiskDistribution es))
                               (tier2Percent (calculateRiskDistribution es)))
                       (tier3Percent (calculateRiskDistribution es)))
               (Fin 101)))"
proof -
  let ?r = "calculateRiskDistribution es"
  let ?s = "tier1 ?r + tier2 ?r + tier3 ?r"
  have s: "?s = length (filter has_tier es)"
    by (simp add: risk_counts tier_counts_sum)
  then have le: "?s \<le> length es" by simp
  have near: "nearest_percent (percentage (tier1 ?r) (length es)) (tier1 ?r) (length es) \<and>
      nearest_percent (percentage (tier2 ?r) (length es)) (tier2 ?r) (length es) \<and>
      nearest_percent (percentage (tier3 ?r) (length es)) (tier3 ?r) (length es)"
    if "es \<noteq> []" "length es < 2 ^ 32"
  proof -
    have n: "0 < length es" using that(1) by simp
    have "tier1 ?r \<le> length es" "tier2 ?r \<le> length es" "tier3 ?r \<le> length es"
      by (simp_all add: risk_counts)
    then show ?thesis using percentage_nearest [OF n that(2)] by blast
  qed
  have all: "?s = length es" if "list_all has_tier es"
    using that s by (simp add: filter_has_tier_all)
  have pct: "js_le (Fin 99)
               (js_add (js_add (tier1Percent ?r) (tier2Percent ?r)) (tier3Percent ?r)) \<and>
         js_le (js_add (js_add (tier1Percent ?r) (tier2Percent ?r)) (tier3Percent ?r))
               (Fin 101)"
    if "list_all has_tier es" "es \<noteq> []"
  proof -
    have n: "0 < length es" using that(2) by simp
    have b: "99 \<le> percentage (tier1 ?r) (length es) + percentage (tier2 ?r) (length es)
                  + percentage (tier3 ?r) (length es) \<and>
             percentage (tier1 ?r) (length es) + percentage (tier2 ?r) (length es)
                  + percentage (tier3 ?r) (length es) \<le> 101"
      by (rule percentage_sum [OF all [OF that(1)] n])
    have f: "js_add (js_add (tier1Percent ?r) (tier2Percent ?r)) (tier3Percent ?r) =
             Fin (of_int (percentage (tier1 ?r) (length es) + percentage (tier2 ?r) (length es)
                  + percentage (tier3 ?r) (length es)))"
      by (simp add: risk_percents)
    have "(99 :: rat) \<le> of_int (percentage (tier1 ?r) (length es)
              + percentage (tier2 ?r) (length es) + percentage (tier3 ?r) (length es))"
      using b by linarith
    moreover have "(of_int (percentage (tier1 ?r) (length es)
              + percentage (tier2 ?r) (length es) + percentage (tier3 ?r) (length es)) :: rat)
              \<le> 101"
      using b by linarith
    ultimately show ?thesis unfolding f js_le_Fin by simp
  qed
  show ?thesis using s le all pct near risk_percents by blast
qed

theorem C4_tier_counts_witness:
  "list_all has_tier forty_population \<and> forty_population \<noteq> [] \<and>
   length forty_population < 2 ^ 32 \<and>
   tier1 (calculateRiskDistribution forty_population)
     + tier2 (calculateRiskDistribution forty_population)
     + tier3 (calculateRiskDistribution forty_population) = length forty_population \<and>
   nearest_percent (percentage (tier1 (calculateRiskDistribution forty_population))
                               (length forty_population))
                   (tier1 (calculateRiskDistribution forty_population))
                   (length forty_population) \<and>
   js_le (Fin 99)
         (js_add (js_add (tier1Percent (calculateRiskDistribution forty_population))
                         (tier2Percent (calculateRiskDistribution forty_population)))
                 (tier3Percent (calculateRiskDistribution forty_population))) \<and>
   tier1 (calculateRiskDistribution forty_population) = 23 \<and>
   length forty_population = 40 \<and>
   tier1Percent (calculateRiskDistribution forty_population) = Fin 57 \<and>
   tier2Percent (calculateRiskDistribution forty_population) = Fin 43 \<and>
   tier3Percent (calculateRiskDistribution forty_population) = Fin 0"
proof -
  have h: "list_all has_tier forty_population" by code_simp
  have n: "forty_population \<noteq> []" by (simp add: forty_population_def)
  have l: "length forty_population = 40" by (simp add: forty_population_def)
  have b: "length forty_population < 2 ^ 32" unfolding l by simp
  have t: "tier1 (calculateRiskDistribution forty_population) = 23" by code_simp
  have p1: "tier1Percent (calculateRiskDistribution forty_population) = Fin 57" by code_simp
  have p2: "tier2Percent (calculateRiskDistribution forty_population) = Fin 43" by code_simp
  have p3: "tier3Percent (calculateRiskDistribution forty_population) = Fin 0" by code_simp
  show ?thesis
    using C4_tier_counts_cover_assessed [of forty_population] h n b l t p1 p2 p3 by blast
qed

section \<open>Referral analysis\<close>

lemma status_counts:
  "statusCounts (analyzeReferrals rs) =
     [(''Pending'', length (filter (\<lambda>r. status r = ''Pending'') rs)),
      (''Accepted'', length (filter (\<lambda>r. status r = ''Accepted'') rs)),
      (''Rejected'', length (filter (\<lambda>r. status r = ''Rejected'') rs))]"
  by (simp add: analyzeReferrals_def Let_def)

lemma acceptance_rate:
  "acceptanceRate (analyzeReferrals rs) =
     Fin (of_int (percentage (length (filter (\<lambda>r. status r = ''Accepted'') rs)) (length rs)))"
  by (simp add: analyzeReferrals_def Let_def percentage_def)

lemma status_partition:
  "length (filter (\<lambda>r. status r = ''Pending'') rs)
     + length (filter (\<lambda>r. status r = ''Accepted'') rs)
     + length (filter (\<lambda>r. status r = ''Rejected'') rs)
     + length (filter (\<lambda>r. \<not> counted_status r) rs) = length rs"
  by (induction rs) (auto simp: counted_status_def)

lemma uncounted_present:
  assumes "r \<in> set rs" and "\<not> counted_status r"
  shows "0 < length (filter (\<lambda>r. \<not> counted_status r) rs)"
  using assms by (induction rs) auto

text \<open>
  Claim C9. For every list of referrals the status counts of \<open>analyzeReferrals\<close> have
  exactly the keys \<open>Pending\<close>, \<open>Accepted\<close> and \<open>Rejected\<close>, each with the number of
  referrals of that status. The acceptance rate is \<open>Math.round\<close> of the double
  \<open>(accepted / total) * 100\<close> over the length of the whole list, so referrals of any other
  status are in its denominator; for a non-empty list of fewer than \<open>2 ^ 32\<close> referrals it
  is an integer nearest to the exact percentage. The three counts and the number of
  referrals with another status add up to the length of the list: the counts sum to at
  most the total, and to strictly less when some referral is \<open>Cancelled\<close> or \<open>Completed\<close>.
  Adding a \<open>Cancelled\<close> or \<open>Completed\<close> referral leaves the counts as they are and does
  not raise the acceptance rate.
\<close>

theorem C9_status_counts:
  "map fst (statusCounts (analyzeReferrals rs)) = [''Pending'', ''Accepted'', ''Rejected''] \<and>
   map snd (statusCounts (analyzeReferrals rs)) =
     [length (filter (\<lambda>r. status r = ''Pending'') rs),
      length (filter (\<lambda>r. status r = ''Accepted'') rs),
      length (filter (\<lambda>r. status r = ''Rejected'') rs)] \<and>
   acceptanceRate (analyzeReferrals rs) =
     Fin (of_int (percentage (length (filter (\<lambda>r. status r = ''Accepted'') rs)) (length rs))) \<and>
   (rs \<noteq> [] \<and> length rs < 2 ^ 32 \<longrightarrow>
      nearest_percent (percentage (length (filter (\<lambda>r. status r = ''Accepted'') rs)) (length rs))
                      (length (filter (\<lambda>r. status r = ''Accepted'') rs)) (length rs)) \<and>
   sum_list (map snd (statusCounts (analyzeReferrals rs)))
     + length (filter (\<lambda>r. \<not> counted_status r) rs) = length rs \<and>
   sum_list (map snd (statusCounts (analyzeReferrals rs))) \<le> length rs \<and>
   ((\<exists>r \<in> set rs. status r = ''Cancelled'' \<or> status r = ''Completed'') \<longrightarrow>
      sum_list (map snd (statusCounts (analyzeReferrals rs))) < length rs) \<and>
   (status c = ''Cancelled'' \<or> status c = ''Completed'' \<longrightarrow>
      statusCounts (analyzeReferrals (c # rs)) = statusCounts (analyzeReferrals rs) \<and>
      js_le (acceptanceRate (analyzeReferrals (c # rs))) (acceptanceRate (analyzeReferrals rs)))"
proof -
  let ?sum = "sum_list (map snd (statusCounts (analyzeReferrals rs)))"
  let ?acc = "length (filter (\<lambda>r. status r = ''Accepted'') rs)"
  have part: "?sum + length (filter (\<lambda>r. \<not> counted_status r) rs) = length rs"
    using status_partition [of rs] by (simp add: status_counts)
  then have le: "?sum \<le> length rs" by simp
  have near: "nearest_percent (percentage ?acc (length rs)) ?acc (length rs)"
    if "rs \<noteq> []" "length rs < 2 ^ 32"
  proof -
    have n: "0 < length rs" using that(1) by simp
    have "?acc \<le> length rs" by simp
    from percentage_nearest [OF n that(2) this] show ?thesis .
  qed
  have strict: "?sum < length rs"
    if "\<exists>r \<in> set rs. status r = ''Cancelled'' \<or> status r = ''Completed''"
  proof -
    from that obtain r where r: "r \<in> set rs"
      and "status r = ''Cancelled'' \<or> status r = ''Completed''" by blast
    then have "\<not> counted_status r" by (auto simp: counted_status_def)
    from uncounted_present [OF r this] part show ?thesis by linarith
  qed
  have add: "statusCounts (analyzeReferrals (c # rs)) = statusCounts (analyzeReferrals rs) \<and>
      js_le (acceptanceRate (analyzeReferrals (c # rs))) (acceptanceRate (analyzeReferrals rs))"
    if c: "status c = ''Cancelled'' \<or> status c = ''Completed''"
  proof -
    have same: "statusCounts (analyzeReferrals (c # rs)) = statusCounts (analyzeReferrals rs)"
      using c by (auto simp: status_counts)
    have "?acc \<le> length rs" by simp
    from percentage_antimono [OF this] c
    have "js_le (acceptanceRate (analyzeReferrals (c # rs))) (acceptanceRate (analyzeReferrals rs))"
      by (auto simp: acceptance_rate)
    with same show ?thesis by simp
  qed
  have keys: "map fst (statusCounts (analyzeReferrals rs)) = [''Pending'', ''Accepted'', ''Rejected'']"
    by (simp add: status_counts)
  have vals: "map snd (statusCounts (analyzeReferrals rs)) =
     [length (filter (\<lambda>r. status r = ''Pending'') rs),
      length (filter (\<lambda>r. status r = ''Accepted'') rs),
      length (filter (\<lambda>r. status r = ''Rejected'') rs)]"
    by (simp add: status_counts)
  show ?thesis using keys vals acceptance_rate [of rs] near part le strict add by blast
qed

theorem C9_status_counts_witness:
  "forty_referrals \<noteq> [] \<and> length forty_referrals < 2 ^ 32 \<and>
   nearest_percent
     (percentage (length (filter (\<lambda>r. status r = ''Accepted'') forty_referrals))
                 (length forty_referrals))
     (length (filter (\<lambda>r. status r = ''Accepted'') forty_referrals)) (length forty_referrals) \<and>
   (\<exists>r \<in> set forty_referrals. status r = ''Cancelled'' \<or> status r = ''Completed'') \<and>
   sum_list (map snd (statusCounts (analyzeReferrals forty_referrals)))
     < length forty_referrals \<and>
   status (referral_with ''Completed'') = ''Completed'' \<and>
   js_le (acceptanceRate (analyzeReferrals (referral_with ''Completed'' # forty_referrals)))
         (acceptanceRate (analyzeReferrals forty_referrals)) \<and>
   statusCounts (analyzeReferrals forty_referrals)
     = [(''Pending'', 0), (''Accepted'', 23), (''Rejected'', 0)] \<and>
   length forty_referrals = 40 \<and>
   acceptanceRate (analyzeReferrals forty_referrals) = Fin 57 \<and>
   acceptanceRate (analyzeReferrals (referral_with ''Completed'' # forty_referrals)) = Fin 56"
proof -
  have n: "forty_referrals \<noteq> []" by (simp add: forty_referrals_def)
  have l: "length forty_referrals = 40" by (simp add: forty_referrals_def)
  have b: "length forty_referrals < 2 ^ 32" unfolding l by simp
  have h: "\<exists>r \<in> set forty_referrals. status r = ''Cancelled'' \<or> status r = ''Completed''"
    by (simp add: forty_referrals_def referral_with_def)
  have c: "status (referral_with ''Completed'') = ''Completed''"
    by (simp add: referral_with_def)
  have s: "statusCounts (analyzeReferrals forty_referrals)
     = [(''Pending'', 0), (''Accepted'', 23), (''Rejected'', 0)]" by code_simp
  have r: "acceptanceRate (analyzeReferrals forty_referrals) = Fin 57" by code_simp
  have r': "acceptanceRate (analyzeReferrals (referral_with ''Completed'' # forty_referrals))
     = Fin 56" by code_simp
  show ?thesis
    using C9_status_counts [of forty_referrals "referral_with ''Completed''"] n b h c l s r r'
    by blast
qed

section \<open>Referral workflow: cancellation\<close>




lemma respond_buttons_rendered_iff:
  "respond_buttons_rendered s rid =
     (status_of s rid = Some ''Pending'' \<and> allowed (inbox_userRole (referralInbox s)) ''RESPOND_REFERRAL'')"
  by (auto simp: respond_buttons_rendered_def status_of_def split: option.splits)














end
